theory Spec2Isabelle
  imports Complex_Main
begin

section \<open>JavaScript values used by the market-data and automation code\<close>

text \<open>
  JavaScript numbers are modelled as real numbers: the rounding of IEEE doubles is not
  represented, and a function that can return \<open>NaN\<close> returns an option.
  \<open>Date.now()\<close> is an integer number of milliseconds and is passed to every function
  that reads the clock.  An optional field
  \<open>f?: T\<close> is a \<open>T option\<close>, \<open>None\<close> standing for \<open>undefined\<close>.
\<close>

definition Math_round :: "real \<Rightarrow> int" where
  "Math_round x = \<lfloor>x + 1 / 2\<rfloor>"

definition Math_max :: "'a::linorder \<Rightarrow> 'a \<Rightarrow> 'a" where
  "Math_max a b = max a b"

definition Math_min :: "'a::linorder \<Rightarrow> 'a \<Rightarrow> 'a" where
  "Math_min a b = min a b"

text \<open>Truthiness of an optional number (\<open>undefined\<close> and \<open>0\<close> are falsy) and of an
  optional string (\<open>undefined\<close> and the empty string are falsy).\<close>

fun truthy_number :: "real option \<Rightarrow> bool" where
  "truthy_number None = False"
| "truthy_number (Some x) = (x \<noteq> 0)"

fun truthy_string :: "string option \<Rightarrow> bool" where
  "truthy_string None = False"
| "truthy_string (Some s) = (s \<noteq> [])"

section \<open>Data model\<close>

datatype AssetType = STOCK | CRYPTO

record NewsItem =
  title :: string
  url :: string
  source :: string
  publishedAt :: string
  sentiment :: "string option"

record AnalystRating =
  rating :: string
  targetPrice :: "real option"
  rating_recommendation :: string

text \<open>\<open>AssetData\<close>: the fields that the code under study reads or writes.  The two
  range strings built with \<open>toFixed(2)\<close> (\<open>dayRange\<close>, \<open>week52Range\<close>) and the
  \<open>lastUpdated\<close> date are display data and are left out.\<close>

record AssetData =
  symbol :: string
  name :: string
  type :: AssetType
  price :: real
  change :: real
  changePercent :: real
  volume :: "real option"
  marketCap :: "real option"
  sector :: "string option"
  pe :: "real option"
  previousClose :: "real option"
  "open" :: "real option"
  beta :: "real option"
  eps :: "real option"
  week52High :: "real option"
  week52Low :: "real option"

record EnhancedAssetData = AssetData +
  news :: "NewsItem list"
  analystRatings :: "AnalystRating list option"

text \<open>The object returned by \<open>calculateTechnicalIndicators\<close> of the analysis route
  (the fields the scorer reads).\<close>

record TechnicalIndicators =
  rsi :: real
  ma20 :: real
  priceVsMA20 :: real
  volatility :: real

text \<open>The object returned by \<open>calculateAdvancedTechnicalIndicators\<close> of the automation
  engine (the fields the risk-adjusted scorer reads).\<close>

record AdvancedTechnicalIndicators =
  adv_rsi :: real
  adv_macd :: real
  adv_volatility :: real

record Sentiment =
  overall :: string
  impact :: string

section \<open>Confidence scoring\<close>

text \<open>\<open>calculateConfidenceScore\<close> of the analysis route: each \<open>if (c) baseScore += k\<close> of
  the source is one rebinding of \<open>baseScore\<close>, in the source's order.\<close>

definition calculateConfidenceScore ::
  "EnhancedAssetData \<Rightarrow> TechnicalIndicators \<Rightarrow> Sentiment \<Rightarrow> int" where
  "calculateConfidenceScore assetData technicalIndicators newsSentiment =
    (let baseScore = (60::real);
         baseScore = (if (case volume assetData of None \<Rightarrow> False | Some v \<Rightarrow> v \<noteq> 0 \<and> v > 0)
                      then baseScore + 5 else baseScore);
         baseScore = (if (case marketCap assetData of None \<Rightarrow> False | Some m \<Rightarrow> m \<noteq> 0 \<and> m > 0)
                      then baseScore + 5 else baseScore);
         baseScore = (if truthy_number (pe assetData) then baseScore + 5 else baseScore);
         baseScore = (if truthy_string (sector assetData) then baseScore + 5 else baseScore);
         baseScore = (if length (news assetData) > 0
                      then (let b = baseScore
                                  + Math_min (real (length (news assetData)) * 2) 10
                            in if overall newsSentiment \<noteq> ''NEUTRAL'' then b + 3 else b)
                      else baseScore);
         baseScore = (if rsi technicalIndicators > 30 \<and> rsi technicalIndicators < 70
                      then baseScore + 5 else baseScore);
         baseScore = (if \<bar>priceVsMA20 technicalIndicators\<bar> < 10
                      then baseScore + 3 else baseScore);
         baseScore = (if volatility technicalIndicators < 20 then baseScore + 5
                      else if volatility technicalIndicators > 40 then baseScore - 5
                      else baseScore);
         baseScore = (case analystRatings assetData of
                        None \<Rightarrow> baseScore
                      | Some rs \<Rightarrow>
                          if length rs > 0
                          then baseScore + Math_min (real (length rs) * 3) 10
                          else baseScore)
     in Math_max 45 (Math_min 85 (Math_round baseScore)))"

text \<open>The lookup \<open>{'LOW': 0.8, 'MEDIUM': 1.0, 'HIGH': 1.2}[riskTolerance] || 1.0\<close>.  The
  object literal has the three properties of its own and inherits those of
  \<open>Object.prototype\<close>, whose names are listed here; each inherited member is a function
  or an object, which is truthy, so \<open>|| 1.0\<close> does not replace it, and which is not a
  number: the result is then \<open>None\<close>.  Every other key is \<open>undefined\<close> and gives
  \<open>1.0\<close>.\<close>

definition Object_prototype_members :: "string list" where
  "Object_prototype_members =
    [''constructor'', ''__defineGetter__'', ''__defineSetter__'', ''hasOwnProperty'',
     ''__lookupGetter__'', ''__lookupSetter__'', ''isPrototypeOf'', ''propertyIsEnumerable'',
     ''toString'', ''valueOf'', ''__proto__'', ''toLocaleString'']"

definition riskMultiplier :: "string \<Rightarrow> real option" where
  "riskMultiplier riskTolerance =
    (if riskTolerance = ''LOW'' then Some 0.8
     else if riskTolerance = ''MEDIUM'' then Some 1.0
     else if riskTolerance = ''HIGH'' then Some 1.2
     else if riskTolerance \<in> set Object_prototype_members then None
     else Some 1.0)"

text \<open>\<open>calculateRiskAdjustedConfidence\<close> of the automation engine.  The asset data is
  an argument of the source function that its body never reads.  The result is \<open>None\<close>
  where the JavaScript value is \<open>NaN\<close>: the product of the confidence with a multiplier
  that is not a number is \<open>NaN\<close>, and \<open>Math.round\<close>, \<open>Math.min\<close> and \<open>Math.max\<close>
  return \<open>NaN\<close> for a \<open>NaN\<close> argument.\<close>

definition calculateRiskAdjustedConfidence ::
  "EnhancedAssetData \<Rightarrow> AdvancedTechnicalIndicators \<Rightarrow> Sentiment \<Rightarrow> string \<Rightarrow> int option" where
  "calculateRiskAdjustedConfidence assetData technicalIndicators marketSentiment riskTolerance =
    (let baseConfidence = (60::real);
         baseConfidence = (if adv_rsi technicalIndicators > 30 \<and> adv_rsi technicalIndicators < 70
                           then baseConfidence + 10 else baseConfidence);
         baseConfidence = (if \<bar>adv_macd technicalIndicators\<bar> < 0.5
                           then baseConfidence + 5 else baseConfidence);
         baseConfidence = (if overall marketSentiment \<noteq> ''NEUTRAL''
                           then baseConfidence + 8 else baseConfidence);
         baseConfidence = (if impact marketSentiment = ''HIGH''
                           then baseConfidence + 5 else baseConfidence);
         baseConfidence = (if adv_volatility technicalIndicators > 30
                           then baseConfidence * 0.9 else baseConfidence);
         baseConfidence = (if adv_volatility technicalIndicators < 15
                           then baseConfidence * 1.1 else baseConfidence)
     in case riskMultiplier riskTolerance of
          None \<Rightarrow> None
        | Some m \<Rightarrow> Some (Math_max 45 (Math_min 85 (Math_round (baseConfidence * m)))))"

section \<open>Relative strength index\<close>

text \<open>The body of the loop shared by both \<open>calculateRSI\<close> functions: \<open>gl\<close> is the
  pair \<open>(gains, losses)\<close>, \<open>i\<close> the loop index.\<close>

definition rsi_step :: "real list \<Rightarrow> real \<times> real \<Rightarrow> nat \<Rightarrow> real \<times> real" where
  "rsi_step prices gl i =
    (let change = prices ! i - prices ! (i - 1)
     in if change > 0 then (fst gl + change, snd gl) else (fst gl, snd gl - change))"

text \<open>\<open>calculateRSI(prices, period = 14)\<close> of the analysis route.  The loop
  \<open>for (i = 1; i <= period; i++)\<close> is the fold over \<open>[1..<period + 1]\<close>; after the
  length guard every index it reads is in range.  The result is \<open>None\<close> where the
  JavaScript value is \<open>NaN\<close>: for the period 0 on a series that is not empty, both
  averages are \<open>0 / 0\<close>.\<close>

definition calculateRSI :: "real list \<Rightarrow> nat \<Rightarrow> real option" where
  "calculateRSI prices period =
    (if length prices < period + 1 then Some 50
     else if period = 0 then None
     else (let gl = foldl (rsi_step prices) (0, 0) [1..<period + 1];
               avgGain = fst gl / real period;
               avgLoss = snd gl / real period
           in if avgLoss = 0 then Some 100
              else (let rs = avgGain / avgLoss in Some (100 - 100 / (1 + rs)))))"

text \<open>\<open>calculateRSI(prices)\<close> of the automation engine, which guards with
  \<open>prices.length < 14\<close>, reads \<open>prices[14]\<close> and divides without testing the average
  loss.  Its result is \<open>None\<close> where the JavaScript value is \<open>NaN\<close>: for exactly 14
  samples (\<open>prices[14]\<close> is \<open>undefined\<close>, so the last change is \<open>NaN\<close>) and for no gain
  and no loss (\<open>0 / 0\<close>).  With a gain and no loss \<open>rs\<close> is \<open>Infinity\<close> and the result
  \<open>100 - 100 / Infinity = 100\<close>.\<close>

definition calculateRSI_engine :: "real list \<Rightarrow> real option" where
  "calculateRSI_engine prices =
    (if length prices < 14 then Some 50
     else if length prices < 15 then None
     else (let gl = foldl (rsi_step prices) (0, 0) [1..<15];
               gains = fst gl;
               losses = snd gl
           in if losses / 14 = 0 then (if gains / 14 = 0 then None else Some 100)
              else (let rs = (gains / 14) / (losses / 14) in Some (100 - 100 / (1 + rs)))))"

section \<open>Automation signal evaluation and risk management\<close>

datatype Action = BUY | SELL

text \<open>The parsed reply of the analysis collaborator (\<open>analysis: any\<close>): the fields that
  \<open>evaluateAutomationSignal\<close> reads.\<close>

record Analysis =
  recommendation :: string
  confidence :: real
  priceTarget :: "real option"

text \<open>The user row (\<open>userSettings: any\<close>).  \<open>user_id\<close> is optional because the caller's
  \<open>select\<close> does not list the \<open>id\<close> column.\<close>

record UserSettings =
  user_id :: "string option"
  buyConfidenceThreshold :: real
  sellConfidenceThreshold :: real
  maxTradeAmountAuto :: real
  maxTradesPerDay :: int
  stopLossPercent :: real
  takeProfitPercent :: real
  requireManualConfirm :: bool
  tradingMode :: string
  riskTolerance :: string

record Asset =
  asset_id :: string
  asset_symbol :: string

record AutomationSignal =
  sig_assetId :: string
  sig_symbol :: string
  sig_action :: Action
  sig_confidence :: real
  sig_priceTarget :: "real option"
  sig_currentPrice :: real
  sig_recommendation :: string
  sig_analysis :: Analysis
  sig_userId :: "string option"

text \<open>\<open>evaluateAutomationSignal\<close>.  \<open>todayTrades\<close> is the number returned by the
  persistence collaborator's \<open>prisma.trade.count\<close> query; \<open>None\<close> is the source's
  \<open>null\<close>.\<close>

definition evaluateAutomationSignal ::
  "Analysis \<Rightarrow> UserSettings \<Rightarrow> Asset \<Rightarrow> EnhancedAssetData \<Rightarrow> nat \<Rightarrow> AutomationSignal option" where
  "evaluateAutomationSignal analysis userSettings asset assetData todayTrades =
    (let isBuySignal = (recommendation analysis = ''BUY''
                        \<and> confidence analysis \<ge> buyConfidenceThreshold userSettings);
         isSellSignal = (recommendation analysis = ''SELL''
                         \<and> confidence analysis \<ge> sellConfidenceThreshold userSettings)
     in if \<not> isBuySignal \<and> \<not> isSellSignal then None
        else if int todayTrades \<ge> maxTradesPerDay userSettings then None
        else Some \<lparr> sig_assetId = asset_id asset,
                    sig_symbol = asset_symbol asset,
                    sig_action = (if isBuySignal then BUY else SELL),
                    sig_confidence = confidence analysis,
                    sig_priceTarget = priceTarget analysis,
                    sig_currentPrice = price assetData,
                    sig_recommendation = recommendation analysis,
                    sig_analysis = analysis,
                    sig_userId = user_id userSettings \<rparr>)"

datatype AlertType = PRICE_BELOW | PRICE_ABOVE

text \<open>The \<open>data\<close> argument of \<open>prisma.alert.create\<close>; \<open>condition_price\<close> and
  \<open>condition_type\<close> are the two fields of its \<open>condition\<close> object.\<close>

record Alert =
  alert_userId :: "string option"
  alert_assetId :: string
  alert_type :: AlertType
  condition_price :: real
  condition_type :: string
  message :: string
  isActive :: bool

text \<open>\<open>setupRiskManagement\<close>: the two alerts handed to the alerting collaborator, the
  stop-loss alert first.\<close>

definition setupRiskManagement :: "AutomationSignal \<Rightarrow> UserSettings \<Rightarrow> Alert \<times> Alert" where
  "setupRiskManagement signal userSettings =
    (let stopLossPrice =
           (if sig_action signal = BUY
            then sig_currentPrice signal * (1 - stopLossPercent userSettings / 100)
            else sig_currentPrice signal * (1 + stopLossPercent userSettings / 100));
         takeProfitPrice =
           (if sig_action signal = BUY
            then sig_currentPrice signal * (1 + takeProfitPercent userSettings / 100)
            else sig_currentPrice signal * (1 - takeProfitPercent userSettings / 100))
     in (\<lparr> alert_userId = sig_userId signal,
            alert_assetId = sig_assetId signal,
            alert_type = (if sig_action signal = BUY then PRICE_BELOW else PRICE_ABOVE),
            condition_price = stopLossPrice,
            condition_type = ''STOP_LOSS'',
            message = ''Stop-loss triggered for '' @ sig_symbol signal,
            isActive = True \<rparr>,
         \<lparr> alert_userId = sig_userId signal,
            alert_assetId = sig_assetId signal,
            alert_type = (if sig_action signal = BUY then PRICE_ABOVE else PRICE_BELOW),
            condition_price = takeProfitPrice,
            condition_type = ''TAKE_PROFIT'',
            message = ''Take-profit triggered for '' @ sig_symbol signal,
            isActive = True \<rparr>))"

section \<open>In-flight analyses of the automation engine\<close>

datatype error = Error string

text \<open>\<open>generateAutomatedAnalysis\<close> is asynchronous: between its entry and the moment it
  settles, other calls run.  It is modelled by its two ends, acting on the set
  \<open>runningAnalyses\<close>: the entry (the check, the \<open>throw\<close> before the \<open>try\<close>, the
  \<open>add\<close>) and the \<open>finally\<close> block, which runs whether the body returned or threw and
  passes the body's outcome on unchanged.\<close>

definition analysisKey :: "string \<Rightarrow> string \<Rightarrow> string" where
  "analysisKey symb userId = symb @ ''-'' @ userId"

definition generateAutomatedAnalysis_enter ::
  "string set \<Rightarrow> string \<Rightarrow> string \<Rightarrow> error + string set" where
  "generateAutomatedAnalysis_enter runningAnalyses symb userId =
    (if analysisKey symb userId \<in> runningAnalyses
     then Inl (Error ''Analysis already in progress for this asset'')
     else Inr (insert (analysisKey symb userId) runningAnalyses))"

definition generateAutomatedAnalysis_settle ::
  "string set \<Rightarrow> string \<Rightarrow> string \<Rightarrow> error + 'r \<Rightarrow> (error + 'r) \<times> string set" where
  "generateAutomatedAnalysis_settle runningAnalyses symb userId outcome =
    (outcome, runningAnalyses - {analysisKey symb userId})"

section \<open>Cache store\<close>

record 'a CacheEntry =
  data :: 'a
  timestamp :: int
  ttl :: int

text \<open>The keys of \<open>CACHE_DURATIONS\<close>.  The enhanced service has all seven; the basic
  service of \<open>utils.ts\<close> has the first five, with other durations.\<close>

datatype CacheType = Intraday | Daily | Historical | News | AnalysisData | Search | Extended

fun CACHE_DURATIONS :: "CacheType \<Rightarrow> int" where
  "CACHE_DURATIONS Intraday = 3 * 60 * 1000"
| "CACHE_DURATIONS Daily = 10 * 60 * 1000"
| "CACHE_DURATIONS Historical = 45 * 60 * 1000"
| "CACHE_DURATIONS News = 8 * 60 * 1000"
| "CACHE_DURATIONS AnalysisData = 20 * 60 * 1000"
| "CACHE_DURATIONS Search = 5 * 60 * 1000"
| "CACHE_DURATIONS Extended = 2 * 60 * 60 * 1000"

datatype BasicCacheType = Basic_intraday | Basic_daily | Basic_historical | Basic_news
  | Basic_analysis

fun CACHE_DURATIONS_basic :: "BasicCacheType \<Rightarrow> int" where
  "CACHE_DURATIONS_basic Basic_intraday = 5 * 60 * 1000"
| "CACHE_DURATIONS_basic Basic_daily = 15 * 60 * 1000"
| "CACHE_DURATIONS_basic Basic_historical = 60 * 60 * 1000"
| "CACHE_DURATIONS_basic Basic_news = 10 * 60 * 1000"
| "CACHE_DURATIONS_basic Basic_analysis = 30 * 60 * 1000"

text \<open>\<open>getCachedData\<close> and \<open>setCachedData\<close>, the same code in both services up to the
  table \<open>this.CACHE_DURATIONS\<close>, which is the first argument here.  The cache map is
  passed in and returned; \<open>now\<close> is \<open>Date.now()\<close>.  \<open>None\<close> is the source's \<open>null\<close>.
  The audit-log and console calls are left out.\<close>

definition getCachedData ::
  "('c \<Rightarrow> int) \<Rightarrow> (string \<rightharpoonup> 'a CacheEntry) \<Rightarrow> string \<Rightarrow> 'c \<Rightarrow> int
     \<Rightarrow> 'a option \<times> (string \<rightharpoonup> 'a CacheEntry)" where
  "getCachedData durations cache key cacheType now =
    (let cached = cache key;
         ttl = durations cacheType
     in case cached of
          None \<Rightarrow> (None, cache)
        | Some c \<Rightarrow>
            if now - timestamp c < ttl then (Some (data c), cache)
            else (None, cache(key := None)))"

definition setCachedData ::
  "('c \<Rightarrow> int) \<Rightarrow> (string \<rightharpoonup> 'a CacheEntry) \<Rightarrow> string \<Rightarrow> 'a \<Rightarrow> 'c \<Rightarrow> int
     \<Rightarrow> (string \<rightharpoonup> 'a CacheEntry)" where
  "setCachedData durations cache key d cacheType now =
    (let ttl = durations cacheType
     in cache(key \<mapsto> \<lparr> data = d, timestamp = now, ttl = ttl \<rparr>))"

section \<open>Rate limiter of the enhanced service\<close>

record RateLimitEntry =
  count :: int
  window :: int
  backoffUntil :: "int option"

definition RATE_LIMIT_WINDOW :: int where
  "RATE_LIMIT_WINDOW = 60 * 1000"

text \<open>The map \<open>rateLimits\<close> is keyed by the string \<open>`${apiName}_${Math.floor(now /
  RATE_LIMIT_WINDOW)}`\<close>.  The key is modelled as the pair of the API name and the window
  index: the string determines both (the index is the digits after the last underscore),
  so two keys are equal exactly when the pairs are.\<close>

type_synonym RateLimits = "string \<times> int \<rightharpoonup> RateLimitEntry"

text \<open>\<open>checkRateLimit\<close>: the answer and the updated map.  \<open>now\<close> is \<open>Date.now()\<close>.
  In the branch that computes \<open>Math.pow(2, current.count - maxCalls)\<close> the exponent is
  not negative.  The audit-log and console calls are left out.\<close>

definition checkRateLimit :: "RateLimits \<Rightarrow> string \<Rightarrow> int \<Rightarrow> int \<Rightarrow> bool \<times> RateLimits" where
  "checkRateLimit rateLimits apiName maxCalls now =
    (let windowKey = (apiName, now div RATE_LIMIT_WINDOW);
         current = (case rateLimits windowKey of
                      Some c \<Rightarrow> c
                    | None \<Rightarrow> \<lparr> count = 0, window = now, backoffUntil = None \<rparr>)
     in if (case backoffUntil current of None \<Rightarrow> False | Some b \<Rightarrow> b \<noteq> 0 \<and> now < b)
        then (False, rateLimits)
        else if count current \<ge> maxCalls
        then (let backoffPeriod = Math_min (30000 * 2 ^ nat (count current - maxCalls)) 300000;
                  current = current\<lparr> backoffUntil := Some (now + backoffPeriod) \<rparr>
              in (False, rateLimits(windowKey \<mapsto> current)))
        else (let current = current\<lparr> count := count current + 1 \<rparr>
              in (True, rateLimits(windowKey \<mapsto> current))))"

text \<open>A sequence of checks for one source, one per clock reading, in order: the list
  of answers and the final map.\<close>

fun checkRateLimit_calls ::
  "RateLimits \<Rightarrow> string \<Rightarrow> int \<Rightarrow> int list \<Rightarrow> bool list \<times> RateLimits" where
  "checkRateLimit_calls rateLimits apiName maxCalls [] = ([], rateLimits)"
| "checkRateLimit_calls rateLimits apiName maxCalls (now # nows) =
    (case checkRateLimit rateLimits apiName maxCalls now of
       (ok, rateLimits') \<Rightarrow>
         (case checkRateLimit_calls rateLimits' apiName maxCalls nows of
            (oks, rateLimits'') \<Rightarrow> (ok # oks, rateLimits'')))"

section \<open>Strings\<close>

text \<open>A string is a list of bytes.  The string methods below are those of JavaScript on
  ASCII strings only: there \<open>toUpperCase\<close> and \<open>toLowerCase\<close> change exactly the
  letters \<open>a\<close>-\<open>z\<close> and \<open>A\<close>-\<open>Z\<close>, and \<open>trim\<close> removes exactly the six ASCII
  white-space characters.  On other strings JavaScript also maps letters outside ASCII and
  strips the Unicode white space, which these definitions do not; therefore the results
  that quantify over queries assume \<open>ascii\<close> of them (the lemmas that lead to these
  results are facts about the definitions and need no such assumption).  The
  only text outside ASCII in this code is the apostrophe U+2019 of one table row, which
  has no case mapping and is left unchanged by \<open>toLowerCase\<close> in JavaScript as here.\<close>

definition ascii :: "string \<Rightarrow> bool" where
  "ascii s = list_all (\<lambda>c. \<not> digit7 c) s"

definition toUpperCase :: "string \<Rightarrow> string" where
  "toUpperCase s =
    map (\<lambda>c. case map_of (zip ''abcdefghijklmnopqrstuvwxyz'' ''ABCDEFGHIJKLMNOPQRSTUVWXYZ'') c of
               Some u \<Rightarrow> u | None \<Rightarrow> c) s"

definition toLowerCase :: "string \<Rightarrow> string" where
  "toLowerCase s =
    map (\<lambda>c. case map_of (zip ''ABCDEFGHIJKLMNOPQRSTUVWXYZ'' ''abcdefghijklmnopqrstuvwxyz'') c of
               Some l \<Rightarrow> l | None \<Rightarrow> c) s"

definition isWhiteSpace :: "char \<Rightarrow> bool" where
  "isWhiteSpace c = (c \<in> set [CHR '' '', CHR 0x09, CHR 0x0A, CHR 0x0B, CHR 0x0C, CHR 0x0D])"

definition trim :: "string \<Rightarrow> string" where
  "trim s = rev (dropWhile isWhiteSpace (rev (dropWhile isWhiteSpace s)))"

text \<open>\<open>s.includes(q)\<close>: \<open>q\<close> occurs in \<open>s\<close> as a contiguous substring.\<close>

fun includes_substring :: "string \<Rightarrow> string \<Rightarrow> bool" where
  "includes_substring [] q = (q = [])"
| "includes_substring (c # s) q = (if take (length q) (c # s) = q then True else includes_substring s q)"

section \<open>Static fallback tables\<close>

text \<open>A row of a \<open>fallbackAssets\<close> table.  The basic table has only the first five
  fields; the others are \<open>undefined\<close> there.\<close>

record FallbackAsset =
  fa_symbol :: string
  fa_name :: string
  fa_type :: AssetType
  basePrice :: real
  fa_sector :: string
  fa_previousClose :: "real option"
  fa_open :: "real option"
  fa_beta :: "real option"
  fa_eps :: "real option"
  fa_pe :: "real option"
  fa_volume :: "real option"

definition stock_row ::
  "string \<Rightarrow> string \<Rightarrow> real \<Rightarrow> string \<Rightarrow> real \<Rightarrow> real \<Rightarrow> real \<Rightarrow> real \<Rightarrow> real \<Rightarrow> FallbackAsset" where
  "stock_row s n b sec pc op bt ep p =
    \<lparr> fa_symbol = s, fa_name = n, fa_type = STOCK, basePrice = b, fa_sector = sec,
      fa_previousClose = Some pc, fa_open = Some op, fa_beta = Some bt, fa_eps = Some ep,
      fa_pe = Some p, fa_volume = None \<rparr>"

definition crypto_row ::
  "string \<Rightarrow> string \<Rightarrow> real \<Rightarrow> string \<Rightarrow> real \<Rightarrow> real \<Rightarrow> real \<Rightarrow> FallbackAsset" where
  "crypto_row s n b sec pc op v =
    \<lparr> fa_symbol = s, fa_name = n, fa_type = CRYPTO, basePrice = b, fa_sector = sec,
      fa_previousClose = Some pc, fa_open = Some op, fa_beta = None, fa_eps = None,
      fa_pe = None, fa_volume = Some v \<rparr>"

definition basic_row :: "string \<Rightarrow> string \<Rightarrow> AssetType \<Rightarrow> real \<Rightarrow> string \<Rightarrow> FallbackAsset" where
  "basic_row s n t b sec =
    \<lparr> fa_symbol = s, fa_name = n, fa_type = t, basePrice = b, fa_sector = sec,
      fa_previousClose = None, fa_open = None, fa_beta = None, fa_eps = None,
      fa_pe = None, fa_volume = None \<rparr>"

text \<open>The table of \<open>getEnhancedFallbackSearchResults\<close>.\<close>

definition enhancedFallbackAssets :: "FallbackAsset list" where
  "enhancedFallbackAssets =
    [ stock_row ''AAPL'' ''Apple Inc.'' 175 ''Technology'' 174.50 175.20 1.25 6.15 28.5,
      stock_row ''GOOGL'' ''Alphabet Inc.'' 142 ''Technology'' 141.80 142.10 1.05 5.80 24.5,
      stock_row ''TSLA'' ''Tesla, Inc.'' 248 ''Automotive'' 247.50 249.00 2.15 3.20 77.5,
      stock_row ''NVDA'' ''NVIDIA Corporation'' 178 ''Technology'' 177.20 178.50 1.65 2.48 71.8,
      stock_row ''MSFT'' ''Microsoft Corporation'' 420 ''Technology'' 419.50 420.30 0.95 11.05 38.0,
      stock_row ''IBM'' ''International Business Machines Corp.'' 145 ''Technology''
        144.50 145.20 0.85 6.63 21.9,
      stock_row ''JNJ'' ''Johnson & Johnson'' 162 ''Healthcare'' 161.50 162.30 0.65 6.20 26.1,
      stock_row ''PG'' ''Procter & Gamble Co.'' 155 ''Consumer Goods'' 154.80 155.40 0.55 5.15 30.1,
      stock_row ''WMT'' ''Walmart Inc.'' 165 ''Retail'' 164.70 165.10 0.45 6.29 26.2,
      stock_row ''JPM'' ''JPMorgan Chase & Co.'' 155 ''Financial'' 154.50 155.30 1.15 15.36 10.1,
      stock_row ''BAC'' ''Bank of America Corp.'' 32 ''Financial'' 31.80 32.10 1.25 3.19 10.0,
      crypto_row ''BTC'' ''Bitcoin'' 65000 ''Cryptocurrency'' 64800 65200 25000000000,
      crypto_row ''ETH'' ''Ethereum'' 3200 ''Cryptocurrency'' 3180 3220 12000000000,
      crypto_row ''SHIB'' ''Shiba Inu'' 0.000015 ''Cryptocurrency'' 0.0000148 0.0000152 500000000,
      crypto_row ''XMR'' ''Monero'' 145 ''Cryptocurrency'' 144.20 145.80 85000000 ]"

text \<open>The table of \<open>getFallbackSearchResults\<close> of the basic service.  The apostrophe
  in the McDonald's row is U+2019, written here as its three UTF-8 bytes.\<close>

definition basicFallbackAssets :: "FallbackAsset list" where
  "basicFallbackAssets =
    [ basic_row ''AAPL'' ''Apple Inc.'' STOCK 175 ''Technology'',
      basic_row ''GOOGL'' ''Alphabet Inc.'' STOCK 142 ''Technology'',
      basic_row ''TSLA'' ''Tesla, Inc.'' STOCK 248 ''Automotive'',
      basic_row ''XRP'' ''Ripple'' CRYPTO 0.58 ''Cryptocurrency'',
      basic_row ''LTC'' ''Litecoin'' CRYPTO 85 ''Cryptocurrency'',
      basic_row ''MSFT'' ''Microsoft Corporation'' STOCK 420 ''Technology'',
      basic_row ''NVDA'' ''NVIDIA Corporation'' STOCK 875 ''Technology'',
      basic_row ''META'' ''Meta Platforms Inc.'' STOCK 485 ''Technology'',
      basic_row ''AMZN'' ''Amazon.com Inc.'' STOCK 155 ''E-commerce'',
      basic_row ''IBM'' ''International Business Machines Corporation'' STOCK 145 ''Technology'',
      basic_row ''JPM'' ''JPMorgan Chase & Co.'' STOCK 185 ''Finance'',
      basic_row ''V'' ''Visa Inc.'' STOCK 280 ''Finance'',
      basic_row ''MA'' ''Mastercard Incorporated'' STOCK 410 ''Finance'',
      basic_row ''PEP'' ''PepsiCo Inc.'' STOCK 185 ''Consumer Goods'',
      basic_row ''KO'' ''The Coca-Cola Company'' STOCK 60 ''Consumer Goods'',
      basic_row ''LLY'' ''Eli Lilly and Company'' STOCK 920 ''Healthcare'',
      basic_row ''UNH'' ''UnitedHealth Group Incorporated'' STOCK 520 ''Healthcare'',
      basic_row ''PFE'' ''Pfizer Inc.'' STOCK 35 ''Healthcare'',
      basic_row ''WMT'' ''Walmart Inc.'' STOCK 165 ''Retail'',
      basic_row ''HD'' ''The Home Depot Inc.'' STOCK 320 ''Retail'',
      basic_row ''MCD'' (''McDonald'' @ [CHR 0xE2, CHR 0x80, CHR 0x99] @ ''s Corporation'') STOCK 295
        ''Consumer Services'',
      basic_row ''NKE'' ''NIKE Inc.'' STOCK 105 ''Consumer Goods'',
      basic_row ''SBUX'' ''Starbucks Corporation'' STOCK 95 ''Consumer Services'',
      basic_row ''XOM'' ''Exxon Mobil Corporation'' STOCK 110 ''Energy'',
      basic_row ''CVX'' ''Chevron Corporation'' STOCK 160 ''Energy'',
      basic_row ''GE'' ''General Electric Company'' STOCK 165 ''Industrial'',
      basic_row ''HON'' ''Honeywell International Inc.'' STOCK 195 ''Industrial'',
      basic_row ''UPS'' ''United Parcel Service Inc.'' STOCK 165 ''Logistics'',
      basic_row ''RTX'' ''RTX Corporation'' STOCK 90 ''Aerospace & Defense'',
      basic_row ''LMT'' ''Lockheed Martin Corporation'' STOCK 450 ''Aerospace & Defense'',
      basic_row ''DIS'' ''The Walt Disney Company'' STOCK 95 ''Media'' ]"

text \<open>The filter both fallback functions apply to their table.\<close>

definition matchesQuery :: "string \<Rightarrow> FallbackAsset \<Rightarrow> bool" where
  "matchesQuery query asset =
    (includes_substring (toLowerCase (fa_symbol asset)) (toLowerCase query)
     \<or> includes_substring (toLowerCase (fa_name asset)) (toLowerCase query))"

section \<open>Source chain and static fallback\<close>

text \<open>\<open>Math.random()\<close> is a sequence \<open>rnd\<close> of numbers in \<open>[0, 1)\<close>; \<open>k\<close> counts
  the draws made so far, and each function that draws returns the new count.\<close>

definition getEnhancedFallbackResult :: "(nat \<Rightarrow> real) \<Rightarrow> nat \<Rightarrow> FallbackAsset \<Rightarrow> AssetData \<times> nat" where
  "getEnhancedFallbackResult rnd k asset =
    (let priceVariation = (rnd k - 0.5) * 0.06;
         price0 = basePrice asset * (1 + priceVariation);
         changePercent0 = (rnd (k + 1) - 0.5) * 6;
         change0 = price0 * (changePercent0 / 100);
         volume_k = (if truthy_number (fa_volume asset) then (fa_volume asset, k + 2)
                     else (Some (real_of_int \<lfloor>rnd (k + 2) * 50000000\<rfloor> + 1000000), k + 3));
         k = snd volume_k;
         resultPrice = real_of_int (Math_round (price0 * 100)) / 100;
         week52 = (if resultPrice \<noteq> 0
                   then (Some (resultPrice * (1 + rnd k * 0.3)),
                         Some (resultPrice * (1 - rnd (k + 1) * 0.25)), k + 2)
                   else (None, None, k))
     in (\<lparr> symbol = fa_symbol asset,
            name = fa_name asset,
            type = fa_type asset,
            price = resultPrice,
            change = real_of_int (Math_round (change0 * 100)) / 100,
            changePercent = real_of_int (Math_round (changePercent0 * 100)) / 100,
            volume = fst volume_k,
            marketCap = None,
            sector = Some (fa_sector asset),
            pe = fa_pe asset,
            previousClose = fa_previousClose asset,
            open = fa_open asset,
            beta = fa_beta asset,
            eps = fa_eps asset,
            week52High = fst week52,
            week52Low = fst (snd week52) \<rparr>,
         snd (snd week52)))"

definition getBasicFallbackResult :: "(nat \<Rightarrow> real) \<Rightarrow> nat \<Rightarrow> FallbackAsset \<Rightarrow> AssetData \<times> nat" where
  "getBasicFallbackResult rnd k asset =
    (let priceVariation = (rnd k - 0.5) * 0.1;
         price0 = basePrice asset * (1 + priceVariation);
         changePercent0 = (rnd (k + 1) - 0.5) * 8;
         change0 = price0 * (changePercent0 / 100)
     in (\<lparr> symbol = fa_symbol asset,
            name = fa_name asset,
            type = fa_type asset,
            price = real_of_int (Math_round (price0 * 100)) / 100,
            change = real_of_int (Math_round (change0 * 100)) / 100,
            changePercent = real_of_int (Math_round (changePercent0 * 100)) / 100,
            volume = Some (real_of_int \<lfloor>rnd (k + 2) * 50000000\<rfloor> + 1000000),
            marketCap = None,
            sector = Some (fa_sector asset),
            pe = None, previousClose = None, open = None, beta = None, eps = None,
            week52High = None, week52Low = None \<rparr>,
         k + 3))"

text \<open>\<open>matches.map(asset => ...)\<close> with the draw count threaded through the rows.\<close>

fun map_drawing ::
  "((nat \<Rightarrow> real) \<Rightarrow> nat \<Rightarrow> 'a \<Rightarrow> 'b \<times> nat) \<Rightarrow> (nat \<Rightarrow> real) \<Rightarrow> nat \<Rightarrow> 'a list \<Rightarrow> 'b list" where
  "map_drawing f rnd k [] = []"
| "map_drawing f rnd k (x # xs) = (case f rnd k x of (y, k') \<Rightarrow> y # map_drawing f rnd k' xs)"

definition getEnhancedFallbackSearchResults :: "(nat \<Rightarrow> real) \<Rightarrow> string \<Rightarrow> AssetData list" where
  "getEnhancedFallbackSearchResults rnd query =
    (let matches = take 8 (filter (matchesQuery query) enhancedFallbackAssets)
     in map_drawing getEnhancedFallbackResult rnd 0 matches)"

definition getFallbackSearchResults :: "(nat \<Rightarrow> real) \<Rightarrow> string \<Rightarrow> AssetData list" where
  "getFallbackSearchResults rnd query =
    (let matches = take 5 (filter (matchesQuery query) basicFallbackAssets)
     in map_drawing getBasicFallbackResult rnd 0 matches)"

text \<open>What the environment supplies to one run of the source chain: the outcome of each
  remote search (\<open>Inl\<close> when the awaited call throws, \<open>Inr\<close> its result list; the
  provider functions catch their own errors and then return the empty list), the clock
  readings, and the random draws.\<close>

record SearchEnv =
  alphaVantage :: "error + AssetData list"
  finnhub :: "error + AssetData list"
  scrape :: "error + AssetData list"
  now_alphaVantage :: int
  now_finnhub :: int
  now_cached :: int
  rnd :: "nat \<Rightarrow> real"

text \<open>The body of the operation that \<open>searchAssets\<close> of the enhanced service hands to
  the debouncer: the \<open>try\<close> block with its two inner \<open>try\<close>/\<open>catch\<close>.  Nothing in
  the block can throw past the inner handlers, so the outer \<open>catch\<close> is never
  entered and the outcome is always \<open>Inr\<close>.  The outcome, the rate-limit table and the
  cache are returned.\<close>

definition searchOperation ::
  "RateLimits \<Rightarrow> (string \<rightharpoonup> AssetData list CacheEntry) \<Rightarrow> string \<Rightarrow> SearchEnv
     \<Rightarrow> (error + AssetData list) \<times> RateLimits \<times> (string \<rightharpoonup> AssetData list CacheEntry)" where
  "searchOperation rateLimits cache normalizedQuery env =
    (let cacheKey = ''search_'' @ normalizedQuery;
         results = [];
         check1 = checkRateLimit rateLimits ''alphavantage'' 3 (now_alphaVantage env);
         results = (if fst check1
                    then (case alphaVantage env of
                            Inr stockResults \<Rightarrow> results @ stockResults
                          | Inl e \<Rightarrow> results)
                    else results);
         check2 = checkRateLimit (snd check1) ''finnhub'' 3 (now_finnhub env);
         results = (if fst check2
                    then (case finnhub env of
                            Inr cryptoResults \<Rightarrow> results @ cryptoResults
                          | Inl e \<Rightarrow> results)
                    else results);
         results = (if length results = 0
                    then results @ getEnhancedFallbackSearchResults (rnd env) normalizedQuery
                    else results);
         cache = (if length results > 0
                  then setCachedData CACHE_DURATIONS cache cacheKey results Search (now_cached env)
                  else cache)
     in (Inr (take 10 results), snd check2, cache))"

section \<open>The basic market-data service\<close>

record BasicService =
  b_cache :: "string \<rightharpoonup> AssetData list CacheEntry"
  b_rateLimits :: "string \<times> int \<rightharpoonup> int"

text \<open>\<open>checkRateLimit(apiName, maxCalls = 5)\<close> of the basic service: a counter per
  source and window.\<close>

definition checkRateLimit_basic ::
  "(string \<times> int \<rightharpoonup> int) \<Rightarrow> string \<Rightarrow> int \<Rightarrow> int \<Rightarrow> bool \<times> (string \<times> int \<rightharpoonup> int)" where
  "checkRateLimit_basic rateLimits apiName maxCalls now =
    (let key = (apiName, now div RATE_LIMIT_WINDOW);
         currentCount = (case rateLimits key of Some n \<Rightarrow> n | None \<Rightarrow> 0)
     in if currentCount \<ge> maxCalls then (False, rateLimits)
        else (True, rateLimits(key \<mapsto> currentCount + 1)))"

text \<open>The \<open>try\<close> block of the basic \<open>searchAssets\<close>.  An awaited provider call that
  throws leaves the block: \<open>Inl\<close> with the state reached.\<close>

definition searchAssets_basic_try ::
  "BasicService \<Rightarrow> string \<Rightarrow> SearchEnv \<Rightarrow> error \<times> BasicService + AssetData list \<times> BasicService" where
  "searchAssets_basic_try st normalizedQuery env =
    (let cacheKey = ''search_'' @ normalizedQuery;
         check1 = checkRateLimit_basic (b_rateLimits st) ''alphavantage'' 5 (now_alphaVantage env);
         st = st\<lparr> b_rateLimits := snd check1 \<rparr>
     in case (if fst check1 then alphaVantage env else Inr []) of
          Inl e \<Rightarrow> Inl (e, st)
        | Inr stockResults \<Rightarrow>
     (let results = [] @ stockResults;
          check2 = checkRateLimit_basic (b_rateLimits st) ''finnhub'' 5 (now_finnhub env);
          st = st\<lparr> b_rateLimits := snd check2 \<rparr>
      in case (if fst check2 then finnhub env else Inr []) of
           Inl e \<Rightarrow> Inl (e, st)
         | Inr cryptoResults \<Rightarrow>
     (let results = results @ cryptoResults
      in case (if length results = 0 then scrape env else Inr []) of
           Inl e \<Rightarrow> Inl (e, st)
         | Inr scrapedResults \<Rightarrow>
     (let results = results @ scrapedResults;
          results = (if length results = 0
                     then results @ getFallbackSearchResults (rnd env) normalizedQuery
                     else results);
          st = (if length results > 0
                then st\<lparr> b_cache := setCachedData CACHE_DURATIONS_basic (b_cache st) cacheKey
                                       results Basic_daily (now_cached env) \<rparr>
                else st)
      in Inr (take 10 results, st)))))"

text \<open>\<open>searchAssets\<close> of the basic service: the outcome of its promise and the new
  state.  \<open>now\<close> is the clock at the cache read.\<close>

definition searchAssets_basic ::
  "BasicService \<Rightarrow> string \<Rightarrow> int \<Rightarrow> SearchEnv \<Rightarrow> (error + AssetData list) \<times> BasicService" where
  "searchAssets_basic st query now env =
    (let normalizedQuery = toUpperCase (trim query);
         cacheKey = ''search_'' @ normalizedQuery;
         read = getCachedData CACHE_DURATIONS_basic (b_cache st) cacheKey Basic_daily now;
         st = st\<lparr> b_cache := snd read \<rparr>
     in case fst read of
          Some cached \<Rightarrow> (Inr cached, st)
        | None \<Rightarrow>
            (case searchAssets_basic_try st normalizedQuery env of
               Inr (results, st') \<Rightarrow> (Inr results, st')
             | Inl (e, st') \<Rightarrow>
                 (Inr (getFallbackSearchResults (rnd env) normalizedQuery),
                  st'\<lparr> b_cache := (b_cache st')(cacheKey := None) \<rparr>)))"

section \<open>The enhanced market-data service: debouncing and deduplication\<close>

text \<open>
  JavaScript runs one callback at a time, so the service is a state machine whose steps
  are the synchronous pieces of the code: a call of \<open>searchAssets\<close> up to the point where
  it returns its promise, the callback of a debounce timer, and the settling of a running
  operation.  The state holds the four maps of the class and the part of the runtime they
  refer to: the timeouts scheduled with \<open>setTimeout\<close> and not yet fired or cleared, the
  operations in flight, the callers waiting for each of them, and the outcome of every
  promise of \<open>searchAssets\<close> that has settled.  A caller is the number of one call of
  \<open>searchAssets\<close>, that is of the promise the call returned.  \<open>upstream\<close> lists the
  normalized queries for which the source chain was started, in order.
\<close>

record Timeout =
  handle :: nat
  t_key :: string
  t_caller :: nat
  t_query :: string

record Operation =
  op_id :: nat
  op_key :: string
  op_query :: string

record EnhancedService =
  e_cache :: "string \<rightharpoonup> AssetData list CacheEntry"
  e_rateLimits :: RateLimits
  e_pendingRequests :: "string \<rightharpoonup> nat"
  e_debounceTimers :: "string \<rightharpoonup> nat"
  timeouts :: "Timeout list"
  inflight :: "Operation list"
  awaiting :: "(nat \<times> nat) list"
  settled :: "nat \<rightharpoonup> error + AssetData list"
  upstream :: "string list"
  nextId :: nat

definition init :: EnhancedService where
  "init = \<lparr> e_cache = Map.empty, e_rateLimits = Map.empty, e_pendingRequests = Map.empty,
            e_debounceTimers = Map.empty, timeouts = [], inflight = [], awaiting = [],
            settled = Map.empty, upstream = [], nextId = 0 \<rparr>"

definition clearTimeout :: "EnhancedService \<Rightarrow> nat \<Rightarrow> EnhancedService" where
  "clearTimeout st h = st\<lparr> timeouts := filter (\<lambda>t. handle t \<noteq> h) (timeouts st) \<rparr>"

text \<open>\<open>debounceRequest(key, operation, delay)\<close>, the synchronous executor of its
  promise.  The operation closure is given by the caller and the normalized query it
  captured; the timer fires \<open>delay\<close> milliseconds later unless it is cleared first.
  What \<open>setTimeout\<close> returns is an object in Node.js and a positive number in a
  browser, so a stored handle always passes the test \<open>if (existingTimer)\<close>; the numbers
  used here only name the handles.\<close>

definition debounceRequest :: "EnhancedService \<Rightarrow> string \<Rightarrow> nat \<Rightarrow> string \<Rightarrow> EnhancedService" where
  "debounceRequest st key caller normalizedQuery =
    (let st = (case e_debounceTimers st key of
                 Some existingTimer \<Rightarrow> clearTimeout st existingTimer
               | None \<Rightarrow> st);
         timer = nextId st
     in st\<lparr> timeouts := timeouts st @ [\<lparr> handle = timer, t_key = key, t_caller = caller,
                                          t_query = normalizedQuery \<rparr>],
            e_debounceTimers := (e_debounceTimers st)(key \<mapsto> timer),
            nextId := timer + 1 \<rparr>)"

text \<open>\<open>searchAssets(query)\<close> up to its \<open>return\<close>: a cache hit resolves the caller's
  promise, a miss hands the operation to the debouncer.\<close>

definition searchAssets :: "EnhancedService \<Rightarrow> nat \<Rightarrow> string \<Rightarrow> int \<Rightarrow> EnhancedService" where
  "searchAssets st caller query now =
    (let normalizedQuery = toUpperCase (trim query);
         cacheKey = ''search_'' @ normalizedQuery;
         read = getCachedData CACHE_DURATIONS (e_cache st) cacheKey Search now;
         st = st\<lparr> e_cache := snd read \<rparr>
     in case fst read of
          Some cached \<Rightarrow> st\<lparr> settled := (settled st)(caller \<mapsto> Inr cached) \<rparr>
        | None \<Rightarrow> debounceRequest st cacheKey caller normalizedQuery)"

text \<open>\<open>deduplicateRequest(key, operation)\<close>: with an operation in flight for the key the
  caller waits for it; otherwise the operation is started (one more upstream invocation)
  and registered.\<close>

definition deduplicateRequest :: "EnhancedService \<Rightarrow> string \<Rightarrow> nat \<Rightarrow> string \<Rightarrow> EnhancedService" where
  "deduplicateRequest st key caller normalizedQuery =
    (case e_pendingRequests st key of
       Some existing \<Rightarrow> st\<lparr> awaiting := awaiting st @ [(existing, caller)] \<rparr>
     | None \<Rightarrow>
         (let promise = nextId st
          in st\<lparr> upstream := upstream st @ [normalizedQuery],
                 inflight := inflight st @ [\<lparr> op_id = promise, op_key = key,
                                               op_query = normalizedQuery \<rparr>],
                 e_pendingRequests := (e_pendingRequests st)(key \<mapsto> promise),
                 awaiting := awaiting st @ [(promise, caller)],
                 nextId := promise + 1 \<rparr>))"

text \<open>The callback of the timer with handle \<open>h\<close>.  A handle that is not scheduled (it
  was cleared, or it has fired) does nothing.\<close>

definition timerFires :: "EnhancedService \<Rightarrow> nat \<Rightarrow> EnhancedService" where
  "timerFires st h =
    (case find (\<lambda>t. handle t = h) (timeouts st) of
       None \<Rightarrow> st
     | Some t \<Rightarrow>
         (let st = st\<lparr> timeouts := filter (\<lambda>t. handle t \<noteq> h) (timeouts st),
                        e_debounceTimers := (e_debounceTimers st)(t_key t := None) \<rparr>
          in deduplicateRequest st (t_key t) (t_caller t) (t_query t)))"

text \<open>The operation with promise \<open>p\<close> settles: its body has run against the
  environment \<open>env\<close> (the body's accesses to the rate-limit table and to the cache are
  placed at this step), the \<open>finally\<close> handler removes the in-flight marker, and every
  caller waiting for the operation gets its outcome.\<close>

definition operationSettles :: "EnhancedService \<Rightarrow> nat \<Rightarrow> SearchEnv \<Rightarrow> EnhancedService" where
  "operationSettles st p env =
    (case find (\<lambda>oper. op_id oper = p) (inflight st) of
       None \<Rightarrow> st
     | Some oper \<Rightarrow>
         (let run = searchOperation (e_rateLimits st) (e_cache st) (op_query oper) env;
              outcome = fst run;
              waiters = map snd (filter (\<lambda>w. fst w = p) (awaiting st))
          in st\<lparr> e_rateLimits := fst (snd run),
                 e_cache := snd (snd run),
                 e_pendingRequests := (e_pendingRequests st)(op_key oper := None),
                 inflight := filter (\<lambda>oper. op_id oper \<noteq> p) (inflight st),
                 awaiting := filter (\<lambda>w. fst w \<noteq> p) (awaiting st),
                 settled := (\<lambda>c. if c \<in> set waiters then Some outcome else settled st c) \<rparr>))"

datatype Event =
    Call nat string int
  | TimerFires nat
  | OperationSettles nat SearchEnv

fun step :: "EnhancedService \<Rightarrow> Event \<Rightarrow> EnhancedService" where
  "step st (Call caller query now) = searchAssets st caller query now"
| "step st (TimerFires h) = timerFires st h"
| "step st (OperationSettles p env) = operationSettles st p env"

definition run :: "EnhancedService \<Rightarrow> Event list \<Rightarrow> EnhancedService" where
  "run st events = foldl step st events"

text \<open>Nothing is scheduled and nothing is in flight: no further callback will run unless
  \<open>searchAssets\<close> is called again.\<close>

definition quiescent :: "EnhancedService \<Rightarrow> bool" where
  "quiescent st = (timeouts st = [] \<and> inflight st = [] \<and> awaiting st = [])"

text \<open>A provider contributes nothing: its awaited call threw, or it returned the empty
  list (which is what the provider functions return after catching an error).\<close>

definition provider_failed :: "error + AssetData list \<Rightarrow> bool" where
  "provider_failed r = (case r of Inl e \<Rightarrow> True | Inr results \<Rightarrow> results = [])"

text \<open>Every remote provider of the enhanced chain is rate-limited or fails, for the
  rate-limit table \<open>rateLimits\<close> the operation starts from.\<close>

definition providers_exhausted :: "RateLimits \<Rightarrow> SearchEnv \<Rightarrow> bool" where
  "providers_exhausted rateLimits env =
    (let check1 = checkRateLimit rateLimits ''alphavantage'' 3 (now_alphaVantage env);
         check2 = checkRateLimit (snd check1) ''finnhub'' 3 (now_finnhub env)
     in (if fst check1 then provider_failed (alphaVantage env) else True)
        \<and> (if fst check2 then provider_failed (finnhub env) else True))"

text \<open>The same for the basic chain, whose third provider, the scrape, has no rate
  limit.\<close>

definition providers_exhausted_basic :: "(string \<times> int \<rightharpoonup> int) \<Rightarrow> SearchEnv \<Rightarrow> bool" where
  "providers_exhausted_basic rateLimits env =
    (let check1 = checkRateLimit_basic rateLimits ''alphavantage'' 5 (now_alphaVantage env);
         check2 = checkRateLimit_basic (snd check1) ''finnhub'' 5 (now_finnhub env)
     in (if fst check1 then provider_failed (alphaVantage env) else True)
        \<and> (if fst check2 then provider_failed (finnhub env) else True)
        \<and> provider_failed (scrape env))"

section \<open>Histories of the enhanced service\<close>

text \<open>A call whose debounce timer fires before anything else happens.  The timer that
  the call schedules gets the handle \<open>nextId st\<close>; after a cache hit no timer has that
  handle and nothing fires.\<close>

definition callThenFire :: "EnhancedService \<Rightarrow> nat \<Rightarrow> string \<Rightarrow> int \<Rightarrow> EnhancedService" where
  "callThenFire st caller query now = timerFires (searchAssets st caller query now) (nextId st)"

text \<open>Every query of the history is an ASCII string.\<close>

definition ascii_events :: "Event list \<Rightarrow> bool" where
  "ascii_events events =
    list_all (\<lambda>e. case e of Call caller query now \<Rightarrow> ascii query | _ \<Rightarrow> True) events"

text \<open>The event is the settling of the operation with promise \<open>p\<close>.\<close>

definition settles :: "nat \<Rightarrow> Event \<Rightarrow> bool" where
  "settles p e = (case e of OperationSettles q env \<Rightarrow> q = p | _ \<Rightarrow> False)"

text \<open>What holds in every state the service reaches from \<open>init\<close>, used in the proofs:
  handles and promises are below the next id, keys are built from the queries, the
  promises in flight are distinct, and every registered promise is in flight.\<close>

definition service_inv :: "EnhancedService \<Rightarrow> bool" where
  "service_inv st =
    ((\<forall>t \<in> set (timeouts st). handle t < nextId st \<and> t_key t = ''search_'' @ t_query t)
     \<and> (\<forall>oper \<in> set (inflight st). op_id oper < nextId st
            \<and> op_key oper = ''search_'' @ op_query oper)
     \<and> distinct (map op_id (inflight st))
     \<and> (\<forall>k p. e_pendingRequests st k = Some p \<longrightarrow>
            (\<exists>oper \<in> set (inflight st). op_id oper = p \<and> op_key oper = k)))"

section \<open>Bursts of calls\<close>

text \<open>A burst: calls of \<open>searchAssets\<close>, each given by its caller, its query and the
  clock, made one after the other on a fresh service before any timer fires.\<close>

definition burst :: "(nat \<times> string \<times> int) list \<Rightarrow> EnhancedService" where
  "burst calls = run init (map (\<lambda>(caller, query, now). Call caller query now) calls)"

definition normalizedCalls :: "(nat \<times> string \<times> int) list \<Rightarrow> (nat \<times> string) list" where
  "normalizedCalls calls = map (\<lambda>(caller, query, now). (caller, toUpperCase (trim query))) calls"

text \<open>Every timer scheduled in the state fires, in the order of scheduling.\<close>

definition fireScheduled :: "EnhancedService \<Rightarrow> EnhancedService" where
  "fireScheduled st = run st (map (\<lambda>t. TimerFires (handle t)) (timeouts st))"

text \<open>Of a list of (caller, normalized query), the calls that no later call with the same
  normalized query follows: for each normalized query its last call, in order.\<close>

fun lastPerQuery :: "(nat \<times> string) list \<Rightarrow> (nat \<times> string) list" where
  "lastPerQuery [] = []"
| "lastPerQuery (c # cs) =
    (if snd c \<in> set (map snd cs) then lastPerQuery cs else c # lastPerQuery cs)"

text \<open>The invariant of a burst, used in the proofs: the scheduled timeouts are the last
  calls per query, every scheduled timeout is the one registered for its key, every
  registered timer is scheduled, and handles are distinct and below the next id.\<close>

definition burst_inv :: "EnhancedService \<Rightarrow> (nat \<times> string) list \<Rightarrow> bool" where
  "burst_inv st cs =
    (map (\<lambda>t. (t_caller t, t_query t)) (timeouts st) = lastPerQuery cs
     \<and> (\<forall>t \<in> set (timeouts st). t_key t = ''search_'' @ t_query t
            \<and> e_debounceTimers st (t_key t) = Some (handle t) \<and> handle t < nextId st)
     \<and> (\<forall>k h. e_debounceTimers st k = Some h \<longrightarrow>
            (\<exists>t \<in> set (timeouts st). handle t = h \<and> t_key t = k))
     \<and> distinct (map handle (timeouts st))
     \<and> e_cache st = Map.empty \<and> e_pendingRequests st = Map.empty \<and> upstream st = [])"

text \<open>Staggered calls with one query: each call's timer fires before the next call is
  made, and no operation settles in between.\<close>

definition staggered :: "(nat \<times> int) list \<Rightarrow> string \<Rightarrow> EnhancedService" where
  "staggered calls query = foldl (\<lambda>st (caller, now). callThenFire st caller query now) init calls"

section \<open>Example inputs\<close>

text \<open>Concrete values at which the theorems below are instantiated: the user of the
  specification's end-to-end examples (buy threshold 75, five trades a day, stop-loss 5
  percent, take-profit 10 percent).\<close>

definition demo_user :: UserSettings where
  "demo_user = \<lparr> user_id = Some ''u1'', buyConfidenceThreshold = 75,
     sellConfidenceThreshold = 75, maxTradeAmountAuto = 1000, maxTradesPerDay = 5,
     stopLossPercent = 5, takeProfitPercent = 10, requireManualConfirm = False,
     tradingMode = ''PAPER'', riskTolerance = ''MEDIUM'' \<rparr>"

definition demo_analysis :: "string \<Rightarrow> real \<Rightarrow> Analysis" where
  "demo_analysis r c = \<lparr> recommendation = r, confidence = c, priceTarget = Some 120 \<rparr>"

definition demo_asset :: Asset where
  "demo_asset = \<lparr> asset_id = ''a1'', asset_symbol = ''IBM'' \<rparr>"

definition demo_assetData :: EnhancedAssetData where
  "demo_assetData = \<lparr> symbol = ''IBM'', name = ''International Business Machines Corp.'',
     type = STOCK, price = 100, change = 1, changePercent = 1, volume = Some 1000000,
     marketCap = None, sector = Some ''Technology'', pe = Some 21.9, previousClose = None,
     open = None, beta = None, eps = None, week52High = None, week52Low = None,
     news = [], analystRatings = None \<rparr>"

definition demo_signal :: "Action \<Rightarrow> real \<Rightarrow> AutomationSignal" where
  "demo_signal a p = \<lparr> sig_assetId = ''a1'', sig_symbol = ''IBM'', sig_action = a,
     sig_confidence = 80, sig_priceTarget = Some 120, sig_currentPrice = p,
     sig_recommendation = (if a = BUY then ''BUY'' else ''SELL''),
     sig_analysis = demo_analysis (if a = BUY then ''BUY'' else ''SELL'') 80,
     sig_userId = Some ''u1'' \<rparr>"

definition demo_quote :: AssetData where
  "demo_quote = \<lparr> symbol = ''IBM'', name = ''International Business Machines Corp.'',
     type = STOCK, price = 145, change = 1, changePercent = 1, volume = Some 1000000,
     marketCap = None, sector = None, pe = None, previousClose = None,
     open = None, beta = None, eps = None, week52High = None, week52Low = None \<rparr>"

text \<open>An environment in which the first provider answers with one quote.\<close>

definition demo_env :: SearchEnv where
  "demo_env = \<lparr> alphaVantage = Inr [demo_quote], finnhub = Inr [], scrape = Inr [],
     now_alphaVantage = 1000, now_finnhub = 1200, now_cached = 1400, rnd = (\<lambda>i. 1 / 2) \<rparr>"

text \<open>An environment in which every remote provider throws.\<close>

definition failing_env :: SearchEnv where
  "failing_env = \<lparr> alphaVantage = Inl (Error ''Request failed with status code 429''),
     finnhub = Inl (Error ''timeout of 8000ms exceeded''),
     scrape = Inl (Error ''timeout of 10000ms exceeded''),
     now_alphaVantage = 1000, now_finnhub = 1200, now_cached = 1400, rnd = (\<lambda>i. 1 / 2) \<rparr>"

text \<open>An asset with every data field, six news items and four analyst ratings, and an
  asset with none.\<close>

definition rich_assetData :: EnhancedAssetData where
  "rich_assetData = \<lparr> symbol = ''IBM'', name = ''International Business Machines Corp.'',
     type = STOCK, price = 100, change = 1, changePercent = 1, volume = Some 1000000,
     marketCap = Some 130000000000, sector = Some ''Technology'', pe = Some 21.9,
     previousClose = None, open = None, beta = None, eps = None, week52High = None,
     week52Low = None,
     news = replicate 6 \<lparr> title = ''t'', url = ''u'', source = ''s'', publishedAt = ''p'',
                             sentiment = Some ''positive'' \<rparr>,
     analystRatings = Some (replicate 4 \<lparr> rating = ''Buy'', targetPrice = Some 120,
                                           rating_recommendation = ''BUY'' \<rparr>) \<rparr>"

definition bare_assetData :: EnhancedAssetData where
  "bare_assetData = \<lparr> symbol = ''XYZ'', name = ''Unknown'', type = STOCK, price = 0, change = 0,
     changePercent = 0, volume = None, marketCap = None, sector = None, pe = None,
     previousClose = None, open = None, beta = None, eps = None, week52High = None,
     week52Low = None, news = [], analystRatings = None \<rparr>"

text \<open>The row that \<open>scrapeSearchResults\<close> builds for IBM (its price is the placeholder
  0), and an environment in which both APIs return nothing and the scrape answers with
  that row.\<close>

definition scraped_row :: AssetData where
  "scraped_row = \<lparr> symbol = ''IBM'', name = ''International Business Machines Corporation'',
     type = STOCK, price = 0, change = 0, changePercent = 0, volume = None,
     marketCap = None, sector = None, pe = None, previousClose = None,
     open = None, beta = None, eps = None, week52High = None, week52Low = None \<rparr>"

definition scrape_env :: SearchEnv where
  "scrape_env = \<lparr> alphaVantage = Inr [], finnhub = Inr [], scrape = Inr [scraped_row],
     now_alphaVantage = 1000, now_finnhub = 1200, now_cached = 1400, rnd = (\<lambda>i. 1 / 2) \<rparr>"

text \<open>The basic service before its first search.\<close>

definition basic_init :: BasicService where
  "basic_init = \<lparr> b_cache = Map.empty, b_rateLimits = Map.empty \<rparr>"

text \<open>Price series: fifteen rising samples, fifteen falling samples, and fourteen
  rising samples.\<close>

definition rising15 :: "real list" where
  "rising15 = [1, 2, 3, 4, 5, 6, 7, 8, 9, 10, 11, 12, 13, 14, 15]"

definition falling15 :: "real list" where
  "falling15 = [15, 14, 13, 12, 11, 10, 9, 8, 7, 6, 5, 4, 3, 2, 1]"

definition rising14 :: "real list" where
  "rising14 = [1, 2, 3, 4, 5, 6, 7, 8, 9, 10, 11, 12, 13, 14]"

section \<open>Verified properties\<close>

subsection \<open>Confidence scores and the bounds 45 and 85\<close>

lemma clamp_45_85:
  "45 \<le> Math_max 45 (Math_min 85 (x::int)) \<and> Math_max 45 (Math_min 85 x) \<le> 85"
  by (simp add: Math_max_def Math_min_def)

text \<open>The scorer of the analysis route stays within the bounds for every input.\<close>

lemma calculateConfidenceScore_clamped:
  "45 \<le> calculateConfidenceScore assetData ti newsSentiment
   \<and> calculateConfidenceScore assetData ti newsSentiment \<le> 85"
  unfolding calculateConfidenceScore_def Let_def
  by (rule clamp_45_85)

text \<open>So does the scorer of the automation engine whenever the risk tolerance is not
  the name of an inherited member, in particular for LOW, MEDIUM and HIGH.\<close>

lemma calculateRiskAdjustedConfidence_clamped:
  assumes "rt \<notin> set Object_prototype_members"
  shows "\<exists>v. calculateRiskAdjustedConfidence assetData ati marketSentiment rt = Some v
             \<and> 45 \<le> v \<and> v \<le> 85"
proof -
  have "riskMultiplier rt \<in> {Some 0.8, Some 1.0, Some 1.2}"
    using assms by (simp add: riskMultiplier_def)
  then obtain m where m: "riskMultiplier rt = Some m" by blast
  show ?thesis
    unfolding calculateRiskAdjustedConfidence_def Let_def m option.case
    using clamp_45_85 by blast
qed

lemma riskMultiplier_inherited:
  "riskMultiplier ''constructor'' = None" "riskMultiplier ''toString'' = None"
  "riskMultiplier ''__proto__'' = None"
  by (simp_all add: riskMultiplier_def Object_prototype_members_def)

text \<open>
  C1, evaluated at a failing input.  For the risk tolerance \<open>constructor\<close> (and likewise
  \<open>toString\<close>, \<open>__proto__\<close>), whatever the asset data, the indicators and the sentiment,
  the scorer of the automation engine returns \<open>NaN\<close>: the lookup finds the inherited
  member, the default \<open>1.0\<close> is not taken, and the final \<open>Math.max(45, Math.min(85, ...))\<close>
  passes the \<open>NaN\<close> on.  The claim requires an integer between 45 and 85 for every input.
\<close>

theorem risk_adjusted_confidence_not_a_number:
  "calculateRiskAdjustedConfidence assetData ati marketSentiment ''constructor'' = None
   \<and> calculateRiskAdjustedConfidence assetData ati marketSentiment ''toString'' = None
   \<and> calculateRiskAdjustedConfidence assetData ati marketSentiment ''__proto__'' = None"
  unfolding calculateRiskAdjustedConfidence_def Let_def riskMultiplier_inherited option.case
  by simp

text \<open>The bounds are reached: every bonus gives 85 in both scorers; no data and high
  volatility give 55 in the route's scorer, and the engine's scorer then falls to the
  lower bound 45.\<close>

lemma confidence_score_examples:
  "calculateConfidenceScore rich_assetData
      \<lparr> rsi = 50, ma20 = 100, priceVsMA20 = 0, volatility = 10 \<rparr>
      \<lparr> overall = ''POSITIVE'', impact = ''HIGH'' \<rparr> = 85
   \<and> calculateConfidenceScore bare_assetData
      \<lparr> rsi = 80, ma20 = 100, priceVsMA20 = 20, volatility = 50 \<rparr>
      \<lparr> overall = ''NEUTRAL'', impact = ''LOW'' \<rparr> = 55
   \<and> calculateRiskAdjustedConfidence demo_assetData
      \<lparr> adv_rsi = 50, adv_macd = 0, adv_volatility = 10 \<rparr>
      \<lparr> overall = ''POSITIVE'', impact = ''HIGH'' \<rparr> ''HIGH'' = Some 85
   \<and> calculateRiskAdjustedConfidence demo_assetData
      \<lparr> adv_rsi = 80, adv_macd = 2, adv_volatility = 50 \<rparr>
      \<lparr> overall = ''NEUTRAL'', impact = ''LOW'' \<rparr> ''LOW'' = Some 45"
  by (simp add: calculateConfidenceScore_def calculateRiskAdjustedConfidence_def
      rich_assetData_def bare_assetData_def demo_assetData_def riskMultiplier_def
      Math_round_def Math_min_def Math_max_def Let_def)

subsection \<open>Gate of the signal evaluator\<close>

text \<open>
  C2. The signal evaluator returns no signal when the recommendation is HOLD, when a BUY's
  confidence is strictly below the buy threshold, when a SELL's confidence is strictly
  below the sell threshold, or when the number of trades counted for today is greater than
  or equal to the daily limit.  Conversely, whenever a signal is returned, the
  recommendation is BUY or SELL, the signal carries that action, the confidence meets the
  respective threshold and today's count is strictly less than the daily limit.
\<close>

theorem evaluateAutomationSignal_gate:
  "(recommendation analysis = ''HOLD''
      \<longrightarrow> evaluateAutomationSignal analysis us asset assetData todayTrades = None)
   \<and> (recommendation analysis = ''BUY'' \<and> confidence analysis < buyConfidenceThreshold us
      \<longrightarrow> evaluateAutomationSignal analysis us asset assetData todayTrades = None)
   \<and> (recommendation analysis = ''SELL'' \<and> confidence analysis < sellConfidenceThreshold us
      \<longrightarrow> evaluateAutomationSignal analysis us asset assetData todayTrades = None)
   \<and> (int todayTrades \<ge> maxTradesPerDay us
      \<longrightarrow> evaluateAutomationSignal analysis us asset assetData todayTrades = None)
   \<and> (\<forall>signal. evaluateAutomationSignal analysis us asset assetData todayTrades = Some signal
      \<longrightarrow> (recommendation analysis = ''BUY'' \<and> sig_action signal = BUY
             \<and> confidence analysis \<ge> buyConfidenceThreshold us
           \<or> recommendation analysis = ''SELL'' \<and> sig_action signal = SELL
             \<and> confidence analysis \<ge> sellConfidenceThreshold us)
          \<and> int todayTrades < maxTradesPerDay us)"
  by (auto simp: evaluateAutomationSignal_def Let_def split: if_splits)

lemma demo_buy_signal:
  "evaluateAutomationSignal (demo_analysis ''BUY'' 80) demo_user demo_asset demo_assetData 2
     = Some \<lparr> sig_assetId = ''a1'', sig_symbol = ''IBM'', sig_action = BUY,
              sig_confidence = 80, sig_priceTarget = Some 120, sig_currentPrice = 100,
              sig_recommendation = ''BUY'', sig_analysis = demo_analysis ''BUY'' 80,
              sig_userId = Some ''u1'' \<rparr>"
  by (simp add: evaluateAutomationSignal_def demo_user_def demo_analysis_def demo_asset_def
      demo_assetData_def)

theorem evaluateAutomationSignal_gate_witness:
  "recommendation (demo_analysis ''HOLD'' 99) = ''HOLD''
   \<and> evaluateAutomationSignal (demo_analysis ''HOLD'' 99) demo_user demo_asset demo_assetData 0
       = None
   \<and> recommendation (demo_analysis ''BUY'' 74) = ''BUY''
   \<and> confidence (demo_analysis ''BUY'' 74) < buyConfidenceThreshold demo_user
   \<and> evaluateAutomationSignal (demo_analysis ''BUY'' 74) demo_user demo_asset demo_assetData 0
       = None
   \<and> recommendation (demo_analysis ''SELL'' 74) = ''SELL''
   \<and> confidence (demo_analysis ''SELL'' 74) < sellConfidenceThreshold demo_user
   \<and> evaluateAutomationSignal (demo_analysis ''SELL'' 74) demo_user demo_asset demo_assetData 0
       = None
   \<and> int 5 \<ge> maxTradesPerDay demo_user
   \<and> evaluateAutomationSignal (demo_analysis ''BUY'' 80) demo_user demo_asset demo_assetData 5
       = None
   \<and> (\<exists>signal. evaluateAutomationSignal (demo_analysis ''BUY'' 80) demo_user demo_asset
                  demo_assetData 2 = Some signal
        \<and> sig_action signal = BUY
        \<and> confidence (demo_analysis ''BUY'' 80) \<ge> buyConfidenceThreshold demo_user
        \<and> int 2 < maxTradesPerDay demo_user)"
  using
    evaluateAutomationSignal_gate
      [of "demo_analysis ''HOLD'' 99" demo_user demo_asset demo_assetData 0]
    evaluateAutomationSignal_gate
      [of "demo_analysis ''BUY'' 74" demo_user demo_asset demo_assetData 0]
    evaluateAutomationSignal_gate
      [of "demo_analysis ''SELL'' 74" demo_user demo_asset demo_assetData 0]
    evaluateAutomationSignal_gate
      [of "demo_analysis ''BUY'' 80" demo_user demo_asset demo_assetData 5]
    evaluateAutomationSignal_gate
      [of "demo_analysis ''BUY'' 80" demo_user demo_asset demo_assetData 2]
    demo_buy_signal
  by (simp add: demo_user_def demo_analysis_def)

subsection \<open>Invariants of the event model\<close>

lemma run_snoc: "run st (events @ [e]) = step (run st events) e"
  by (simp add: run_def)

lemma run_append: "run st (xs @ ys) = run (run st xs) ys"
  by (simp add: run_def)

lemma callThenFire_run:
  "callThenFire st caller query now = run st [Call caller query now, TimerFires (nextId st)]"
  by (simp add: callThenFire_def run_def)

lemma find_snoc_found:
  "find P xs = Some x \<Longrightarrow> find P (xs @ ys) = Some x"
  by (induction xs) auto

lemma find_snoc_new:
  "\<forall>y \<in> set xs. \<not> P y \<Longrightarrow> P x \<Longrightarrow> find P (xs @ [x]) = Some x"
  by (induction xs) auto

lemma find_filter_keep:
  "find P xs = Some x \<Longrightarrow> (\<And>y. P y \<Longrightarrow> Q y) \<Longrightarrow> find P (filter Q xs) = Some x"
  by (induction xs) (auto split: if_splits)

lemma find_distinct_id:
  assumes "distinct (map f xs)" "x \<in> set xs"
  shows "find (\<lambda>y. f y = f x) xs = Some x"
  using assms by (induction xs) (auto simp: image_iff)

lemma service_inv_init: "service_inv init"
  by (simp add: service_inv_def init_def)

lemma service_inv_searchAssets:
  assumes "service_inv st"
  shows "service_inv (searchAssets st caller query now)"
  using assms
  by (auto simp: service_inv_def searchAssets_def debounceRequest_def clearTimeout_def
      getCachedData_def Let_def less_Suc_eq split: option.splits if_splits)

lemma service_inv_timerFires:
  assumes "service_inv st"
  shows "service_inv (timerFires st h)"
proof (cases "find (\<lambda>t. handle t = h) (timeouts st)")
  case None
  then show ?thesis using assms by (simp add: timerFires_def)
next
  case (Some t)
  then have t: "t \<in> set (timeouts st)"
    by (auto simp: find_Some_iff in_set_conv_nth)
  then have key: "t_key t = ''search_'' @ t_query t"
    using assms by (auto simp: service_inv_def)
  show ?thesis
  proof (cases "e_pendingRequests st (t_key t)")
    case None
    have fresh: "nextId st \<notin> op_id ` set (inflight st)"
      using assms by (auto simp: service_inv_def)
    show ?thesis
      using assms Some None key fresh
      by (auto simp: service_inv_def timerFires_def deduplicateRequest_def Let_def
          less_Suc_eq)
  next
    case (Some p)
    show ?thesis
      using assms \<open>find (\<lambda>t. handle t = h) (timeouts st) = Some t\<close> Some
      by (auto simp: service_inv_def timerFires_def deduplicateRequest_def Let_def)
  qed
qed

lemma service_inv_operationSettles:
  assumes "service_inv st"
  shows "service_inv (operationSettles st p env)"
proof (cases "find (\<lambda>oper. op_id oper = p) (inflight st)")
  case None
  then show ?thesis using assms by (simp add: operationSettles_def)
next
  case (Some oper)
  then have o: "oper \<in> set (inflight st)" "op_id oper = p"
    by (auto simp: find_Some_iff in_set_conv_nth)
  have dist: "distinct (map op_id (inflight st))"
    using assms by (simp add: service_inv_def)
  have pend: "\<exists>x \<in> set (filter (\<lambda>oper. op_id oper \<noteq> p) (inflight st)).
                 op_id x = q \<and> op_key x = k"
    if "((e_pendingRequests st)(op_key oper := None)) k = Some q" for k q
  proof -
    have k: "k \<noteq> op_key oper" and "e_pendingRequests st k = Some q"
      using that by (auto split: if_splits)
    moreover have "\<forall>k p. e_pendingRequests st k = Some p \<longrightarrow>
            (\<exists>oper \<in> set (inflight st). op_id oper = p \<and> op_key oper = k)"
      using assms unfolding service_inv_def by blast
    ultimately obtain x where x: "x \<in> set (inflight st)" "op_id x = q" "op_key x = k"
      by blast
    have "x \<noteq> oper" using x k by auto
    then have "op_id x \<noteq> op_id oper"
      using dist x(1) o(1) by (metis distinct_map inj_onD)
    then show ?thesis using x o by auto
  qed
  show ?thesis
    unfolding service_inv_def operationSettles_def Some
    using assms pend dist
    by (auto simp: service_inv_def Let_def distinct_map_filter)
qed

lemma service_inv_step: "service_inv st \<Longrightarrow> service_inv (step st e)"
  by (cases e)
     (simp_all add: service_inv_searchAssets service_inv_timerFires
       service_inv_operationSettles)

lemma service_inv_run: "service_inv st \<Longrightarrow> service_inv (run st events)"
  unfolding run_def
  by (induction events arbitrary: st) (simp_all add: service_inv_step)


lemma normalize_IBM: "toUpperCase (trim ''IBM'') = ''IBM''"
  by (simp add: toUpperCase_def trim_def isWhiteSpace_def)

text \<open>A call for IBM that misses the cache schedules a timer under the next handle; no
  other timer has that handle.\<close>

lemma call_schedules_timer:
  assumes inv: "service_inv st"
    and miss: "fst (getCachedData CACHE_DURATIONS (e_cache st) ''search_IBM'' Search now) = None"
  shows "nextId (searchAssets st caller ''IBM'' now) = nextId st + 1"
    and "\<forall>t \<in> set (timeouts (searchAssets st caller ''IBM'' now)).
           handle t = nextId st \<longrightarrow>
           t = \<lparr> handle = nextId st, t_key = ''search_IBM'', t_caller = caller,
                 t_query = ''IBM'' \<rparr>"
proof -
  have old: "\<forall>t \<in> set (timeouts st). handle t \<noteq> nextId st"
    using inv by (auto simp: service_inv_def)
  show "nextId (searchAssets st caller ''IBM'' now) = nextId st + 1"
    using miss
    by (auto simp: searchAssets_def normalize_IBM debounceRequest_def
        clearTimeout_def Let_def split: option.splits)
  show "\<forall>t \<in> set (timeouts (searchAssets st caller ''IBM'' now)).
           handle t = nextId st \<longrightarrow>
           t = \<lparr> handle = nextId st, t_key = ''search_IBM'', t_caller = caller,
                 t_query = ''IBM'' \<rparr>"
    using miss old
    by (auto simp: searchAssets_def normalize_IBM debounceRequest_def
        clearTimeout_def Let_def split: option.splits)
qed

text \<open>No event changes a scheduled timer, and new timers get new handles.\<close>

lemma nextId_mono_step: "nextId st \<le> nextId (step st e)"
  by (cases e)
     (auto simp: searchAssets_def debounceRequest_def clearTimeout_def timerFires_def
       deduplicateRequest_def operationSettles_def Let_def split: option.splits)

lemma timer_origin_step:
  assumes "t \<in> set (timeouts (step st e))" and "handle t < nextId st"
  shows "t \<in> set (timeouts st)"
  using assms
  by (cases e)
     (auto simp: searchAssets_def debounceRequest_def clearTimeout_def timerFires_def
       deduplicateRequest_def operationSettles_def Let_def split: option.splits)

lemma timer_origin_run:
  assumes "t \<in> set (timeouts (run st events))" and "handle t < nextId st"
  shows "t \<in> set (timeouts st)"
  using assms
proof (induction events arbitrary: st)
  case Nil
  then show ?case by (simp add: run_def)
next
  case (Cons e events)
  have "t \<in> set (timeouts (run (step st e) events))"
    using Cons.prems(1) by (simp add: run_def)
  moreover have "handle t < nextId (step st e)"
    using Cons.prems(2) nextId_mono_step [of st e] by simp
  ultimately have "t \<in> set (timeouts (step st e))" by (rule Cons.IH)
  then show ?case using Cons.prems(2) by (rule timer_origin_step)
qed

text \<open>When a scheduled timer fires, its caller waits for an operation in flight for the
  timer's query: the one already in flight for the key, or a new one.\<close>

lemma timer_fire_joins_operation:
  assumes inv: "service_inv st"
    and found: "find (\<lambda>t. handle t = h) (timeouts st) = Some t"
  shows "\<exists>p oper. (p, t_caller t) \<in> set (awaiting (timerFires st h))
           \<and> find (\<lambda>oper. op_id oper = p) (inflight (timerFires st h)) = Some oper
           \<and> op_query oper = t_query t"
proof -
  have t: "t \<in> set (timeouts st)"
    using found by (auto simp: find_Some_iff in_set_conv_nth)
  then have key: "t_key t = ''search_'' @ t_query t"
    using inv by (auto simp: service_inv_def)
  show ?thesis
  proof (cases "e_pendingRequests st (t_key t)")
    case None
    let ?op = "\<lparr> op_id = nextId st, op_key = t_key t, op_query = t_query t \<rparr>"
    have lower: "\<forall>oper \<in> set (inflight st). \<not> op_id oper = nextId st"
      using inv by (auto simp: service_inv_def)
    have f: "find (\<lambda>oper. op_id oper = nextId st) (inflight st @ [?op]) = Some ?op"
      using lower by (intro find_snoc_new) auto
    have "(nextId st, t_caller t) \<in> set (awaiting (timerFires st h))"
      "inflight (timerFires st h) = inflight st @ [?op]"
      using None found by (simp_all add: timerFires_def deduplicateRequest_def Let_def)
    then show ?thesis using f by (metis Operation.select_convs(3))
  next
    case (Some p)
    then obtain oper where oper: "oper \<in> set (inflight st)" "op_id oper = p"
        "op_key oper = t_key t"
      using inv unfolding service_inv_def by blast
    have "op_key oper = ''search_'' @ op_query oper"
      using inv oper(1) unfolding service_inv_def by blast
    then have q: "op_query oper = t_query t" using oper(3) key by simp
    have dist: "distinct (map op_id (inflight st))"
      using inv by (simp add: service_inv_def)
    have f: "find (\<lambda>x. op_id x = p) (inflight st) = Some oper"
      using find_distinct_id [OF dist oper(1)] oper(2) by simp
    have "(p, t_caller t) \<in> set (awaiting (timerFires st h))"
      "inflight (timerFires st h) = inflight st"
      using Some found by (simp_all add: timerFires_def deduplicateRequest_def Let_def)
    then show ?thesis using f q by auto
  qed
qed

text \<open>Until the operation settles, no event removes a waiting caller or the operation.\<close>

lemma waiting_preserved_step:
  assumes "(p, caller) \<in> set (awaiting st)"
    and "find (\<lambda>oper. op_id oper = p) (inflight st) = Some oper"
    and "\<not> settles p e"
  shows "(p, caller) \<in> set (awaiting (step st e))
         \<and> find (\<lambda>oper. op_id oper = p) (inflight (step st e)) = Some oper"
proof (cases e)
  case (Call c q n)
  then show ?thesis
    using assms
    by (auto simp: searchAssets_def debounceRequest_def clearTimeout_def Let_def
        split: option.splits)
next
  case (TimerFires h)
  then show ?thesis
    using assms
    by (auto simp: timerFires_def deduplicateRequest_def Let_def find_snoc_found
        split: option.splits)
next
  case (OperationSettles q env)
  then have qp: "q \<noteq> p" using assms(3) by (simp add: settles_def)
  have "find (\<lambda>oper. op_id oper = p) (filter (\<lambda>oper. op_id oper \<noteq> q) (inflight st))
          = Some oper"
    using assms(2) qp by (intro find_filter_keep) auto
  then show ?thesis
    using assms qp OperationSettles
    by (auto simp: operationSettles_def Let_def split: option.splits)
qed

lemma waiting_preserved_run:
  assumes "(p, caller) \<in> set (awaiting st)"
    and "find (\<lambda>oper. op_id oper = p) (inflight st) = Some oper"
    and "list_all (\<lambda>e. \<not> settles p e) events"
  shows "(p, caller) \<in> set (awaiting (run st events))
         \<and> find (\<lambda>oper. op_id oper = p) (inflight (run st events)) = Some oper"
  using assms
proof (induction events arbitrary: st)
  case Nil
  then show ?case by (simp add: run_def)
next
  case (Cons e events)
  have "(p, caller) \<in> set (awaiting (step st e))
         \<and> find (\<lambda>oper. op_id oper = p) (inflight (step st e)) = Some oper"
    using Cons.prems by (intro waiting_preserved_step) auto
  then have "(p, caller) \<in> set (awaiting (run (step st e) events))
         \<and> find (\<lambda>oper. op_id oper = p) (inflight (run (step st e) events)) = Some oper"
    using Cons.prems(3) by (intro Cons.IH) auto
  then show ?case by (simp add: run_def)
qed

text \<open>When the operation settles, every caller waiting for it gets its outcome.\<close>

lemma settle_delivers:
  assumes "(p, caller) \<in> set (awaiting st)"
    and "find (\<lambda>oper. op_id oper = p) (inflight st) = Some oper"
  shows "settled (operationSettles st p env) caller
           = Some (fst (searchOperation (e_rateLimits st) (e_cache st) (op_query oper) env))"
  using assms by (force simp: operationSettles_def Let_def)

subsection \<open>Identical concurrent queries\<close>

lemma burst_same_query_state:
  assumes "calls \<noteq> []"
  shows "run init (map (\<lambda>(c, now). Call c query now) calls)
     = init\<lparr> timeouts := [\<lparr> handle = length calls - 1,
                             t_key = ''search_'' @ toUpperCase (trim query),
                             t_caller = fst (last calls),
                             t_query = toUpperCase (trim query) \<rparr>],
             e_debounceTimers := [''search_'' @ toUpperCase (trim query) \<mapsto> length calls - 1],
             nextId := length calls \<rparr>"
  using assms
proof (induction calls rule: rev_induct)
  case Nil
  then show ?case by simp
next
  case (snoc x xs)
  obtain c now where x: "x = (c, now)" by (cases x)
  show ?case
  proof (cases "xs = []")
    case True
    then show ?thesis
      by (simp add: x run_def searchAssets_def debounceRequest_def getCachedData_def init_def
          Let_def fun_eq_iff)
  next
    case False
    then have ih: "run init (map (\<lambda>(c, now). Call c query now) xs)
       = init\<lparr> timeouts := [\<lparr> handle = length xs - 1,
                             t_key = ''search_'' @ toUpperCase (trim query),
                             t_caller = fst (last xs),
                             t_query = toUpperCase (trim query) \<rparr>],
             e_debounceTimers := [''search_'' @ toUpperCase (trim query) \<mapsto> length xs - 1],
             nextId := length xs \<rparr>"
      by (rule snoc.IH)
    have len: "0 < length xs" using False by simp
    have "run init (map (\<lambda>(c, now). Call c query now) (xs @ [x]))
            = searchAssets (run init (map (\<lambda>(c, now). Call c query now) xs)) c query now"
      by (simp add: x run_snoc)
    also have "\<dots> = init\<lparr> timeouts := [\<lparr> handle = length (xs @ [x]) - 1,
                             t_key = ''search_'' @ toUpperCase (trim query),
                             t_caller = fst (last (xs @ [x])),
                             t_query = toUpperCase (trim query) \<rparr>],
             e_debounceTimers := [''search_'' @ toUpperCase (trim query) \<mapsto> length (xs @ [x]) - 1],
             nextId := length (xs @ [x]) \<rparr>"
      unfolding ih using len
      by (simp add: x searchAssets_def debounceRequest_def clearTimeout_def
          getCachedData_def init_def Let_def fun_eq_iff)
    finally show ?thesis .
  qed
qed

text \<open>Calls with one query made before any debounce timer fires: only the timer of the
  last call stays scheduled (firing any other handle does nothing); when it has fired and
  the operation has settled, one upstream invocation has been made and the promise of the
  last caller, and of no other caller, is settled.\<close>

lemma burst_same_query_last_caller_only:
  assumes "calls \<noteq> []" and "ascii query"
  shows "upstream (run init (map (\<lambda>(c, now). Call c query now) calls
                             @ [TimerFires (length calls - 1), OperationSettles (length calls) env]))
           = [toUpperCase (trim query)]
         \<and> settled (run init (map (\<lambda>(c, now). Call c query now) calls
                             @ [TimerFires (length calls - 1), OperationSettles (length calls) env]))
           = [fst (last calls) \<mapsto>
                fst (searchOperation Map.empty Map.empty (toUpperCase (trim query)) env)]
         \<and> quiescent (run init (map (\<lambda>(c, now). Call c query now) calls
                             @ [TimerFires (length calls - 1), OperationSettles (length calls) env]))
         \<and> (\<forall>h. h \<noteq> length calls - 1 \<longrightarrow>
              timerFires (run init (map (\<lambda>(c, now). Call c query now) calls)) h
                = run init (map (\<lambda>(c, now). Call c query now) calls))"
proof -
  have len: "0 < length calls" using assms by simp
  show ?thesis
    unfolding run_append burst_same_query_state [OF assms(1)]
    using len
    by (simp add: run_def timerFires_def deduplicateRequest_def operationSettles_def
        quiescent_def init_def Let_def fun_eq_iff)
qed

text \<open>Calls with one query that reach the deduplicator while the first call's operation is
  in flight share that operation: one upstream invocation is made and every caller's
  promise is settled with its outcome.\<close>

lemma staggered_state:
  assumes "calls \<noteq> []"
  shows "staggered calls query
     = init\<lparr> upstream := [toUpperCase (trim query)],
             inflight := [\<lparr> op_id = 1, op_key = ''search_'' @ toUpperCase (trim query),
                             op_query = toUpperCase (trim query) \<rparr>],
             e_pendingRequests := [''search_'' @ toUpperCase (trim query) \<mapsto> 1],
             awaiting := map (\<lambda>(caller, now). (1, caller)) calls,
             nextId := length calls + 1 \<rparr>"
  using assms
proof (induction calls rule: rev_induct)
  case Nil
  then show ?case by simp
next
  case (snoc x xs)
  obtain c now where x: "x = (c, now)" by (cases x)
  show ?case
  proof (cases "xs = []")
    case True
    then show ?thesis
      by (simp add: x staggered_def callThenFire_def searchAssets_def debounceRequest_def
          timerFires_def deduplicateRequest_def getCachedData_def init_def Let_def fun_eq_iff)
  next
    case False
    then have ih: "staggered xs query
     = init\<lparr> upstream := [toUpperCase (trim query)],
             inflight := [\<lparr> op_id = 1, op_key = ''search_'' @ toUpperCase (trim query),
                             op_query = toUpperCase (trim query) \<rparr>],
             e_pendingRequests := [''search_'' @ toUpperCase (trim query) \<mapsto> 1],
             awaiting := map (\<lambda>(caller, now). (1, caller)) xs,
             nextId := length xs + 1 \<rparr>"
      by (rule snoc.IH)
    have "staggered (xs @ [x]) query = callThenFire (staggered xs query) c query now"
      by (simp add: x staggered_def)
    also have "\<dots> = init\<lparr> upstream := [toUpperCase (trim query)],
             inflight := [\<lparr> op_id = 1, op_key = ''search_'' @ toUpperCase (trim query),
                             op_query = toUpperCase (trim query) \<rparr>],
             e_pendingRequests := [''search_'' @ toUpperCase (trim query) \<mapsto> 1],
             awaiting := map (\<lambda>(caller, now). (1, caller)) (xs @ [x]),
             nextId := length (xs @ [x]) + 1 \<rparr>"
      unfolding ih
      by (simp add: x callThenFire_def searchAssets_def debounceRequest_def
          timerFires_def deduplicateRequest_def getCachedData_def init_def Let_def fun_eq_iff)
    finally show ?thesis .
  qed
qed

lemma staggered_calls_share_one_operation:
  assumes "calls \<noteq> []" and "ascii query"
  shows "upstream (operationSettles (staggered calls query) 1 env) = [toUpperCase (trim query)]"
    and "settled (operationSettles (staggered calls query) 1 env)
           = (\<lambda>caller. if caller \<in> fst ` set calls
                then Some (fst (searchOperation Map.empty Map.empty (toUpperCase (trim query)) env))
                else None)"
    and "quiescent (operationSettles (staggered calls query) 1 env)"
  unfolding staggered_state [OF assms(1)]
  by (auto simp: operationSettles_def quiescent_def init_def Let_def fun_eq_iff image_iff
      split: prod.splits) force

lemma staggered_example:
  "staggered [(0, 0), (1, 600)] ''IBM''
     = run init [Call 0 ''IBM'' 0, TimerFires 0, Call 1 ''IBM'' 600, TimerFires 2]
   \<and> upstream (run init [Call 0 ''IBM'' 0, TimerFires 0, Call 1 ''IBM'' 600, TimerFires 2,
                          OperationSettles 1 demo_env]) = [''IBM'']
   \<and> settled (run init [Call 0 ''IBM'' 0, TimerFires 0, Call 1 ''IBM'' 600, TimerFires 2,
                          OperationSettles 1 demo_env])
       = [0 \<mapsto> Inr [demo_quote], 1 \<mapsto> Inr [demo_quote]]"
  by (simp add: staggered_def callThenFire_def run_def searchAssets_def debounceRequest_def
      clearTimeout_def timerFires_def
      deduplicateRequest_def operationSettles_def getCachedData_def setCachedData_def init_def
      toUpperCase_def trim_def isWhiteSpace_def searchOperation_def
      checkRateLimit_def RATE_LIMIT_WINDOW_def demo_env_def Let_def fun_eq_iff)

text \<open>
  C3, evaluated at a failing input.  Two calls of \<open>searchAssets\<close> with the query
  \<open>IBM\<close> are made on a fresh service in the same tick, both missing the cache.  The
  second call clears the timer of the first, so only the timer with handle 1 stays
  scheduled.  When every callback has run, one upstream invocation has been made and the
  second caller's promise is resolved with its result, but the first caller's promise is
  still unsettled and nothing is left scheduled or in flight that could settle it.
\<close>

theorem superseded_caller_never_settles:
  "timeouts (run init [Call 0 ''IBM'' 0, Call 1 ''IBM'' 0])
     = [\<lparr> handle = 1, t_key = ''search_IBM'', t_caller = 1, t_query = ''IBM'' \<rparr>]
   \<and> upstream (run init [Call 0 ''IBM'' 0, Call 1 ''IBM'' 0,
                       TimerFires 0, TimerFires 1, OperationSettles 2 demo_env]) = [''IBM'']
   \<and> settled (run init [Call 0 ''IBM'' 0, Call 1 ''IBM'' 0,
                       TimerFires 0, TimerFires 1, OperationSettles 2 demo_env]) 1
        = Some (Inr [demo_quote])
   \<and> settled (run init [Call 0 ''IBM'' 0, Call 1 ''IBM'' 0,
                       TimerFires 0, TimerFires 1, OperationSettles 2 demo_env]) 0 = None
   \<and> quiescent (run init [Call 0 ''IBM'' 0, Call 1 ''IBM'' 0,
                       TimerFires 0, TimerFires 1, OperationSettles 2 demo_env])"
  by (simp add: run_def searchAssets_def debounceRequest_def clearTimeout_def timerFires_def
      deduplicateRequest_def operationSettles_def getCachedData_def setCachedData_def init_def
      toUpperCase_def trim_def isWhiteSpace_def quiescent_def searchOperation_def
      checkRateLimit_def RATE_LIMIT_WINDOW_def demo_env_def Let_def)

subsection \<open>Relative strength index\<close>

lemma rsi_fold_Suc:
  "foldl (rsi_step prices) gl [1..<Suc (Suc n)]
     = rsi_step prices (foldl (rsi_step prices) gl [1..<Suc n]) (Suc n)"
  by simp

lemma rsi_fold_nondecreasing:
  "(\<And>i. 1 \<le> i \<Longrightarrow> i \<le> n \<Longrightarrow> prices ! (i - 1) \<le> prices ! i) \<Longrightarrow>
   foldl (rsi_step prices) (0, 0) [1..<Suc n] = (prices ! n - prices ! 0, 0)"
proof (induction n)
  case 0
  show ?case by simp
next
  case (Suc n)
  have ih: "foldl (rsi_step prices) (0, 0) [1..<Suc n] = (prices ! n - prices ! 0, 0)"
    using Suc by simp
  have step: "prices ! n \<le> prices ! Suc n"
    using Suc.prems [of "Suc n"] by simp
  show ?case
    unfolding rsi_fold_Suc ih using step by (simp add: rsi_step_def Let_def)
qed

lemma rsi_fold_nonincreasing:
  "(\<And>i. 1 \<le> i \<Longrightarrow> i \<le> n \<Longrightarrow> prices ! i \<le> prices ! (i - 1)) \<Longrightarrow>
   foldl (rsi_step prices) (0, 0) [1..<Suc n] = (0, prices ! 0 - prices ! n)"
proof (induction n)
  case 0
  show ?case by simp
next
  case (Suc n)
  have ih: "foldl (rsi_step prices) (0, 0) [1..<Suc n] = (0, prices ! 0 - prices ! n)"
    using Suc by simp
  have step: "prices ! Suc n \<le> prices ! n"
    using Suc.prems [of "Suc n"] by simp
  show ?case
    unfolding rsi_fold_Suc ih using step by (simp add: rsi_step_def Let_def)
qed

lemma sorted_take_steps:
  assumes "15 \<le> length prices" "sorted (take 15 prices)" "1 \<le> i" "i \<le> 14"
  shows "prices ! (i - 1) \<le> (prices ! i :: real)"
proof -
  have "take 15 prices ! (i - 1) \<le> take 15 prices ! i"
    using assms by (intro sorted_nth_mono) auto
  then show ?thesis using assms by simp
qed

lemma rev_sorted_take_steps:
  assumes "15 \<le> length prices" "sorted (rev (take 15 prices))" "1 \<le> i" "i \<le> 14"
  shows "prices ! i \<le> (prices ! (i - 1) :: real)"
proof -
  have "sorted_wrt (\<ge>) (take 15 prices)"
    using assms(2) by (simp add: sorted_wrt_rev)
  then have "take 15 prices ! (i - 1) \<ge> take 15 prices ! i"
    using sorted_wrt_nth_less [of "\<lambda>x y. y \<le> x" "take 15 prices" "i - 1" i] assms by auto
  then show ?thesis using assms by simp
qed

lemma fold14: "[1..<14 + 1] = [1..<Suc 14]" "[1..<15] = [1..<Suc 14]"
  by simp_all

text \<open>
  C4 (as amended).  With the default period 14, \<open>calculateRSI\<close> of the analysis route
  returns exactly 50 for every series of fewer than 15 samples; 100 for every series of
  at least 15 samples whose first 15 are non-decreasing; and 0, through the average-loss
  division, for every series of at least 15 samples whose first 15 are non-increasing and
  fall somewhere.  The automation engine's \<open>calculateRSI\<close> returns 50 below 14 samples,
  100 for at least 15 samples rising over a non-decreasing first 15, and 0 for at least 15
  samples falling over a non-increasing first 15.
\<close>

theorem calculateRSI_monotone_series:
  "(length prices < 15 \<longrightarrow> calculateRSI prices 14 = Some 50)
   \<and> (15 \<le> length prices \<and> sorted (take 15 prices) \<longrightarrow> calculateRSI prices 14 = Some 100)
   \<and> (15 \<le> length prices \<and> sorted (rev (take 15 prices)) \<and> prices ! 14 < prices ! 0
        \<longrightarrow> calculateRSI prices 14 = Some 0)
   \<and> (length prices < 14 \<longrightarrow> calculateRSI_engine prices = Some 50)
   \<and> (15 \<le> length prices \<and> sorted (take 15 prices) \<and> prices ! 0 < prices ! 14
        \<longrightarrow> calculateRSI_engine prices = Some 100)
   \<and> (15 \<le> length prices \<and> sorted (rev (take 15 prices)) \<and> prices ! 14 < prices ! 0
        \<longrightarrow> calculateRSI_engine prices = Some 0)"
proof -
  have up: "foldl (rsi_step prices) (0, 0) [1..<Suc 14] = (prices ! 14 - prices ! 0, 0)"
    if "15 \<le> length prices" "sorted (take 15 prices)"
    using that by (intro rsi_fold_nondecreasing sorted_take_steps) auto
  have down: "foldl (rsi_step prices) (0, 0) [1..<Suc 14] = (0, prices ! 0 - prices ! 14)"
    if "15 \<le> length prices" "sorted (rev (take 15 prices))"
    using that by (intro rsi_fold_nonincreasing rev_sorted_take_steps) auto
  have a: "length prices < 15 \<longrightarrow> calculateRSI prices 14 = Some 50"
    by (simp add: calculateRSI_def)
  have b: "15 \<le> length prices \<and> sorted (take 15 prices) \<longrightarrow> calculateRSI prices 14 = Some 100"
    unfolding calculateRSI_def fold14 using up by (simp add: Let_def)
  have c: "15 \<le> length prices \<and> sorted (rev (take 15 prices)) \<and> prices ! 14 < prices ! 0
        \<longrightarrow> calculateRSI prices 14 = Some 0"
    unfolding calculateRSI_def fold14 using down by (simp add: Let_def)
  have d: "length prices < 14 \<longrightarrow> calculateRSI_engine prices = Some 50"
    by (simp add: calculateRSI_engine_def)
  have e: "15 \<le> length prices \<and> sorted (take 15 prices) \<and> prices ! 0 < prices ! 14
        \<longrightarrow> calculateRSI_engine prices = Some 100"
    unfolding calculateRSI_engine_def fold14 using up by (simp add: Let_def)
  have f: "15 \<le> length prices \<and> sorted (rev (take 15 prices)) \<and> prices ! 14 < prices ! 0
        \<longrightarrow> calculateRSI_engine prices = Some 0"
    unfolding calculateRSI_engine_def fold14 using down by (simp add: Let_def)
  from a b c d e f show ?thesis by blast
qed

theorem calculateRSI_monotone_series_witness:
  "length rising14 < 15 \<and> calculateRSI rising14 14 = Some 50
   \<and> 15 \<le> length rising15 \<and> sorted (take 15 rising15)
   \<and> calculateRSI rising15 14 = Some 100
   \<and> 15 \<le> length falling15 \<and> sorted (rev (take 15 falling15))
   \<and> falling15 ! 14 < falling15 ! 0
   \<and> calculateRSI falling15 14 = Some 0
   \<and> length [1, 2, 3 :: real] < 14 \<and> calculateRSI_engine [1, 2, 3] = Some 50
   \<and> rising15 ! 0 < rising15 ! 14 \<and> calculateRSI_engine rising15 = Some 100
   \<and> calculateRSI_engine falling15 = Some 0"
proof -
  have up: "15 \<le> length rising15 \<and> sorted (take 15 rising15) \<and> rising15 ! 0 < rising15 ! 14"
    by (simp add: rising15_def)
  have down: "15 \<le> length falling15 \<and> sorted (rev (take 15 falling15))
      \<and> falling15 ! 14 < falling15 ! 0"
    by (simp add: falling15_def)
  have short: "length rising14 < 15" "length [1, 2, 3 :: real] < 14"
    by (simp_all add: rising14_def)
  show ?thesis
    using calculateRSI_monotone_series [of rising14] calculateRSI_monotone_series [of rising15]
      calculateRSI_monotone_series [of falling15] calculateRSI_monotone_series [of "[1, 2, 3]"]
      up down short
    by simp
qed

text \<open>
  C4 as stated fails: a strictly increasing series of 14 samples has fewer than
  \<open>period + 1\<close> samples, so the length guard answers 50, not 100.
\<close>

theorem calculateRSI_14_samples_counterexample:
  "sorted_wrt (<) rising14 \<and> length rising14 = 14
   \<and> calculateRSI rising14 14 = Some 50
   \<and> calculateRSI rising14 14 \<noteq> Some 100"
  by (simp add: calculateRSI_def rising14_def)

subsection \<open>Rate limiter\<close>

text \<open>
  C5, evaluated at a failing input.  With \<open>maxCalls = 3\<close>, four checks for one source at
  time 59000 are answered true, true, true, false, and the fourth stores
  \<open>backoffUntil = 59000 + min(30000 * 2^0, 300000) = 89000\<close> in the entry of window 0.
  A fifth check at time 60000, before that backoff expires, is answered true: it falls
  in window 1, whose key has no entry, so the stored backoff is never consulted.  The claim
  says the backoff denies every later call until it expires, also in later windows.
\<close>

theorem backoff_lost_at_window_boundary:
  "fst (checkRateLimit_calls Map.empty ''alphavantage'' 3 [59000, 59000, 59000, 59000, 60000])
     = [True, True, True, False, True]
   \<and> map_option backoffUntil
       (snd (checkRateLimit_calls Map.empty ''alphavantage'' 3 [59000, 59000, 59000, 59000])
          (''alphavantage'', 0)) = Some (Some 89000)"
  by (simp add: checkRateLimit_def Let_def RATE_LIMIT_WINDOW_def Math_min_def)

subsection \<open>Bursts with varying queries\<close>

lemma lastPerQuery_snoc:
  "lastPerQuery (cs @ [c]) = filter (\<lambda>x. snd x \<noteq> snd c) (lastPerQuery cs) @ [c]"
  by (induction cs) auto

lemma set_lastPerQuery: "set (map snd (lastPerQuery cs)) = set (map snd cs)"
  by (induction cs) auto

lemma distinct_lastPerQuery: "distinct (map snd (lastPerQuery cs))"
proof (induction cs)
  case Nil
  show ?case by simp
next
  case (Cons c cs)
  have "snd c \<notin> set (map snd (lastPerQuery cs))" if "snd c \<notin> set (map snd cs)"
    using that set_lastPerQuery [of cs] by simp
  then show ?case using Cons by auto
qed

lemma burst_inv_init: "burst_inv init []"
  by (simp add: burst_inv_def init_def)

lemma searchAssets_cache_empty:
  assumes "e_cache st = Map.empty"
  shows "searchAssets st c q now
           = debounceRequest st (''search_'' @ toUpperCase (trim q)) c (toUpperCase (trim q))"
proof -
  have same: "st\<lparr> e_cache := Map.empty \<rparr> = st"
    using assms by (cases st) simp
  show ?thesis
    by (simp add: searchAssets_def getCachedData_def Let_def assms same)
qed

lemma burst_inv_step:
  assumes inv: "burst_inv st cs"
  shows "burst_inv (searchAssets st c q now) (cs @ [(c, toUpperCase (trim q))])"
proof -
  let ?nq = "toUpperCase (trim q)"
  let ?key = "''search_'' @ ?nq"
  let ?f = "\<lambda>t. (t_caller t, t_query t)"
  let ?new = "\<lparr> handle = nextId st, t_key = ?key, t_caller = c, t_query = ?nq \<rparr>"
  from inv have lpq: "map ?f (timeouts st) = lastPerQuery cs"
    and reg: "\<And>t. t \<in> set (timeouts st) \<Longrightarrow> t_key t = ''search_'' @ t_query t
            \<and> e_debounceTimers st (t_key t) = Some (handle t) \<and> handle t < nextId st"
    and sched: "\<And>k h. e_debounceTimers st k = Some h \<Longrightarrow>
            \<exists>t \<in> set (timeouts st). handle t = h \<and> t_key t = k"
    and dist: "distinct (map handle (timeouts st))"
    and rest: "e_cache st = Map.empty" "e_pendingRequests st = Map.empty" "upstream st = []"
    by (auto simp: burst_inv_def)
  define kept where "kept = filter (\<lambda>t. t_query t \<noteq> ?nq) (timeouts st)"
  have cleared: "(case e_debounceTimers st ?key of
                    Some existingTimer \<Rightarrow> clearTimeout st existingTimer
                  | None \<Rightarrow> st) = st\<lparr> timeouts := kept \<rparr>"
  proof (cases "e_debounceTimers st ?key")
    case None
    have "t_query t \<noteq> ?nq" if "t \<in> set (timeouts st)" for t
      using reg [OF that] None by auto
    then have "kept = timeouts st" by (simp add: kept_def)
    then show ?thesis using None by simp
  next
    case (Some h)
    have "(handle t \<noteq> h) = (t_query t \<noteq> ?nq)" if t: "t \<in> set (timeouts st)" for t
    proof
      assume "handle t \<noteq> h"
      then show "t_query t \<noteq> ?nq" using reg [OF t] Some by auto
    next
      assume nq: "t_query t \<noteq> ?nq"
      show "handle t \<noteq> h"
      proof
        assume h: "handle t = h"
        obtain t' where t': "t' \<in> set (timeouts st)" "handle t' = h" "t_key t' = ?key"
          using sched [OF Some] by blast
        have "t = t'"
          using dist t t' h by (metis distinct_map inj_onD)
        then show False using reg [OF t] t' nq by simp
      qed
    qed
    then have "filter (\<lambda>t. handle t \<noteq> h) (timeouts st) = kept"
      unfolding kept_def by (intro filter_cong) auto
    then show ?thesis using Some by (simp add: clearTimeout_def)
  qed
  have st': "searchAssets st c q now
      = st\<lparr> timeouts := kept @ [?new],
            e_debounceTimers := (e_debounceTimers st)(?key \<mapsto> nextId st),
            nextId := nextId st + 1 \<rparr>"
    unfolding searchAssets_cache_empty [OF rest(1)] debounceRequest_def cleared
    by (simp add: Let_def)
  have kept_sub: "set kept \<subseteq> set (timeouts st)" by (auto simp: kept_def)
  have kept_key: "t_key t \<noteq> ?key" if "t \<in> set kept" for t
    using that reg [of t] by (auto simp: kept_def)
  have "map ?f kept = filter (\<lambda>x. snd x \<noteq> ?nq) (map ?f (timeouts st))"
    by (simp add: kept_def filter_map comp_def)
  then have a: "map ?f (kept @ [?new]) = lastPerQuery (cs @ [(c, ?nq)])"
    by (simp add: lastPerQuery_snoc lpq)
  have b: "\<forall>t \<in> set (kept @ [?new]). t_key t = ''search_'' @ t_query t
            \<and> ((e_debounceTimers st)(?key \<mapsto> nextId st)) (t_key t) = Some (handle t)
            \<and> handle t < nextId st + 1"
    using kept_sub kept_key reg by (auto simp: less_Suc_eq)
  have c: "\<forall>k h. ((e_debounceTimers st)(?key \<mapsto> nextId st)) k = Some h \<longrightarrow>
            (\<exists>t \<in> set (kept @ [?new]). handle t = h \<and> t_key t = k)"
  proof (intro allI impI)
    fix k h
    assume kh: "((e_debounceTimers st)(?key \<mapsto> nextId st)) k = Some h"
    show "\<exists>t \<in> set (kept @ [?new]). handle t = h \<and> t_key t = k"
    proof (cases "k = ?key")
      case True
      then show ?thesis using kh by simp
    next
      case False
      then have "e_debounceTimers st k = Some h" using kh by simp
      then obtain t where t: "t \<in> set (timeouts st)" "handle t = h" "t_key t = k"
        using sched by blast
      have "t_query t \<noteq> ?nq" using reg [OF t(1)] t(3) False by auto
      then have "t \<in> set kept" using t(1) by (simp add: kept_def)
      then show ?thesis using t by auto
    qed
  qed
  have "distinct (map handle kept)"
    unfolding kept_def using dist by (simp add: distinct_map_filter)
  moreover have "nextId st \<notin> set (map handle kept)"
    using kept_sub reg by fastforce
  ultimately have d: "distinct (map handle (kept @ [?new]))" by simp
  have sel: "timeouts (searchAssets st c q now) = kept @ [?new]"
    "e_debounceTimers (searchAssets st c q now) = (e_debounceTimers st)(?key \<mapsto> nextId st)"
    "nextId (searchAssets st c q now) = nextId st + 1"
    "e_cache (searchAssets st c q now) = Map.empty"
    "e_pendingRequests (searchAssets st c q now) = Map.empty"
    "upstream (searchAssets st c q now) = []"
    using rest by (simp_all add: st')
  show ?thesis
    unfolding burst_inv_def sel using a b c d by blast
qed

lemma burst_inv_burst: "burst_inv (burst calls) (normalizedCalls calls)"
proof (induction calls rule: rev_induct)
  case Nil
  show ?case by (simp add: burst_def normalizedCalls_def run_def burst_inv_init)
next
  case (snoc x xs)
  obtain c q now where x: "x = (c, q, now)" by (cases x)
  have "burst (xs @ [x]) = searchAssets (burst xs) c q now"
    by (simp add: burst_def run_def x)
  moreover have "normalizedCalls (xs @ [x]) = normalizedCalls xs @ [(c, toUpperCase (trim q))]"
    by (simp add: normalizedCalls_def x)
  ultimately show ?case using burst_inv_step [OF snoc.IH] by simp
qed

lemma fire_all:
  assumes "timeouts st = ts" "distinct (map handle ts)" "distinct (map t_key ts)"
    "\<forall>t \<in> set ts. e_pendingRequests st (t_key t) = None"
  shows "upstream (foldl timerFires st (map handle ts)) = upstream st @ map t_query ts
         \<and> timeouts (foldl timerFires st (map handle ts)) = []"
  using assms
proof (induction ts arbitrary: st)
  case Nil
  then show ?case by simp
next
  case (Cons t ts)
  let ?st = "timerFires st (handle t)"
  have nt: "handle t \<notin> handle ` set ts"
    using Cons.prems(2) by simp
  have rest: "filter (\<lambda>u. handle u \<noteq> handle t) ts = ts"
    unfolding filter_id_conv using nt by (metis imageI)
  have fired: "?st = (st\<lparr> timeouts := ts,
                           e_debounceTimers := (e_debounceTimers st)(t_key t := None) \<rparr>)
                  \<lparr> upstream := upstream st @ [t_query t],
                    inflight := inflight st @ [\<lparr> op_id = nextId st, op_key = t_key t,
                                                  op_query = t_query t \<rparr>],
                    e_pendingRequests := (e_pendingRequests st)(t_key t \<mapsto> nextId st),
                    awaiting := awaiting st @ [(nextId st, t_caller t)],
                    nextId := nextId st + 1 \<rparr>"
    using Cons.prems(1,4) rest
    by (simp add: timerFires_def deduplicateRequest_def Let_def)
  have 1: "timeouts ?st = ts" by (simp add: fired)
  have 2: "distinct (map handle ts)" "distinct (map t_key ts)"
    using Cons.prems by simp_all
  have nk: "t_key t \<notin> t_key ` set ts"
    using Cons.prems(3) by simp
  have "t_key u \<noteq> t_key t" if "u \<in> set ts" for u
    using nk that by (metis imageI)
  then have 3: "\<forall>u \<in> set ts. e_pendingRequests ?st (t_key u) = None"
    using Cons.prems(4) by (simp add: fired)
  have "upstream (foldl timerFires ?st (map handle ts)) = upstream ?st @ map t_query ts
         \<and> timeouts (foldl timerFires ?st (map handle ts)) = []"
    by (rule Cons.IH [OF 1 2 3])
  then show ?case by (simp add: fired)
qed

lemma run_TimerFires: "run st (map (\<lambda>t. TimerFires (handle t)) ts) = foldl timerFires st (map handle ts)"
  by (induction ts arbitrary: st) (simp_all add: run_def)

text \<open>For every burst of \<open>searchAssets\<close> calls made on a fresh service before any
  debounce timer fires, the timers left scheduled are those of the last call for each
  normalized query (trimmed, upper-cased), in order; when they have fired, the upstream
  executions are exactly these, one per distinct normalized query of the burst.\<close>

lemma burst_executes_last_call_per_query:
  assumes "list_all (\<lambda>(caller, query, now). ascii query) calls"
  shows "map (\<lambda>t. (t_caller t, t_query t)) (timeouts (burst calls))
      = lastPerQuery (normalizedCalls calls)
   \<and> upstream (fireScheduled (burst calls)) = map snd (lastPerQuery (normalizedCalls calls))
   \<and> timeouts (fireScheduled (burst calls)) = []
   \<and> distinct (upstream (fireScheduled (burst calls)))
   \<and> set (upstream (fireScheduled (burst calls))) = set (map snd (normalizedCalls calls))"
proof -
  let ?st = "burst calls"
  let ?cs = "normalizedCalls calls"
  have inv: "burst_inv ?st ?cs" by (rule burst_inv_burst)
  then have lpq: "map (\<lambda>t. (t_caller t, t_query t)) (timeouts ?st) = lastPerQuery ?cs"
    and reg: "\<And>t. t \<in> set (timeouts ?st) \<Longrightarrow> t_key t = ''search_'' @ t_query t"
    and dist: "distinct (map handle (timeouts ?st))"
    and pend: "e_pendingRequests ?st = Map.empty" and up: "upstream ?st = []"
    by (auto simp: burst_inv_def)
  have q: "map t_query (timeouts ?st) = map snd (lastPerQuery ?cs)"
    using arg_cong [OF lpq, of "map snd"] by (simp add: comp_def)
  have keys: "map t_key (timeouts ?st) = map (\<lambda>t. ''search_'' @ t_query t) (timeouts ?st)"
    using reg by simp
  have "distinct (map t_query (timeouts ?st))"
    unfolding q by (rule distinct_lastPerQuery)
  then have dk: "distinct (map t_key (timeouts ?st))"
    unfolding keys by (simp add: distinct_map inj_on_def)
  have fired: "upstream (fireScheduled ?st) = map t_query (timeouts ?st)
         \<and> timeouts (fireScheduled ?st) = []"
    unfolding fireScheduled_def run_TimerFires
    using fire_all [OF refl dist dk] pend up by simp
  show ?thesis
    using lpq fired q distinct_lastPerQuery [of ?cs] set_lastPerQuery [of ?cs] by simp
qed

lemma burst_executes_last_call_per_query_example:
  "upstream (fireScheduled (burst [(0, ''a'', 0), (1, ''ab'', 10), (2, ''a '', 20)]))
     = [''AB'', ''A'']
   \<and> map (\<lambda>t. (t_caller t, t_query t))
        (timeouts (burst [(0, ''a'', 0), (1, ''ab'', 10), (2, ''a '', 20)]))
     = [(1, ''AB''), (2, ''A'')]"
  using burst_executes_last_call_per_query [of "[(0, ''a'', 0), (1, ''ab'', 10), (2, ''a '', 20)]"]
  by (simp add: normalizedCalls_def toUpperCase_def trim_def isWhiteSpace_def ascii_def)

text \<open>
  C6, evaluated at a failing input.  A burst of two calls with the distinct queries
  \<open>IB\<close> and \<open>IBM\<close> (what a client sends while \<open>IBM\<close> is typed) is made on a fresh
  service within the debounce window.  The debounce key contains the query, so the second
  call does not clear the timer of the first: both timers stay scheduled, and when they
  have fired both queries have been executed upstream, in two operations, not only the
  last one.
\<close>

theorem varying_queries_all_execute:
  "timeouts (run init [Call 0 ''IB'' 0, Call 1 ''IBM'' 100])
     = [\<lparr> handle = 0, t_key = ''search_IB'', t_caller = 0, t_query = ''IB'' \<rparr>,
        \<lparr> handle = 1, t_key = ''search_IBM'', t_caller = 1, t_query = ''IBM'' \<rparr>]
   \<and> upstream (run init [Call 0 ''IB'' 0, Call 1 ''IBM'' 100, TimerFires 0, TimerFires 1])
     = [''IB'', ''IBM'']
   \<and> map op_query (inflight (run init [Call 0 ''IB'' 0, Call 1 ''IBM'' 100,
                                          TimerFires 0, TimerFires 1]))
     = [''IB'', ''IBM'']"
  by (simp add: run_def searchAssets_def debounceRequest_def clearTimeout_def timerFires_def
      deduplicateRequest_def getCachedData_def init_def
      toUpperCase_def trim_def isWhiteSpace_def Let_def)

subsection \<open>Static fallback\<close>

lemma enhanced_matches_IBM:
  "filter (matchesQuery ''IBM'') enhancedFallbackAssets =
    [stock_row ''IBM'' ''International Business Machines Corp.'' 145 ''Technology''
       144.50 145.20 0.85 6.63 21.9]"
  by code_simp

lemma basic_matches_IBM:
  "filter (matchesQuery ''IBM'') basicFallbackAssets =
    [basic_row ''IBM'' ''International Business Machines Corporation'' STOCK 145 ''Technology'']"
  by code_simp

lemma Math_round_pos: "1 \<le> x \<Longrightarrow> 0 < real_of_int (Math_round x) / 100"
proof -
  assume "1 \<le> x"
  then have "1 \<le> \<lfloor>x + 1 / 2\<rfloor>" by (simp add: le_floor_iff)
  then show ?thesis by (simp add: Math_round_def)
qed

lemma enhanced_fallback_IBM:
  assumes "0 \<le> r 0"
  shows "\<exists>a. getEnhancedFallbackSearchResults r ''IBM'' = [a] \<and> symbol a = ''IBM'' \<and> 0 < price a"
proof -
  have "1 \<le> 145 * (1 + (r 0 - 0.5) * 0.06) * 100"
    using assms by (simp add: field_simps)
  then have "0 < real_of_int (Math_round (145 * (1 + (r 0 - 0.5) * 0.06) * 100)) / 100"
    by (rule Math_round_pos)
  then show ?thesis
    by (simp add: getEnhancedFallbackSearchResults_def enhanced_matches_IBM
        getEnhancedFallbackResult_def stock_row_def Let_def)
qed

lemma basic_fallback_IBM:
  assumes "0 \<le> r 0"
  shows "\<exists>a. getFallbackSearchResults r ''IBM'' = [a] \<and> symbol a = ''IBM'' \<and> 0 < price a"
proof -
  have "1 \<le> 145 * (1 + (r 0 - 0.5) * 0.1) * 100"
    using assms by (simp add: field_simps)
  then have "0 < real_of_int (Math_round (145 * (1 + (r 0 - 0.5) * 0.1) * 100)) / 100"
    by (rule Math_round_pos)
  then show ?thesis
    by (simp add: getFallbackSearchResults_def basic_matches_IBM
        getBasicFallbackResult_def basic_row_def Let_def)
qed

lemma searchOperation_exhausted:
  assumes "providers_exhausted rl env"
  shows "fst (searchOperation rl c q env) = Inr (take 10 (getEnhancedFallbackSearchResults (rnd env) q))"
  using assms
  by (auto simp: providers_exhausted_def searchOperation_def provider_failed_def Let_def
      split: if_splits sum.splits)

lemma searchAssets_basic_try_exhausted:
  assumes "providers_exhausted_basic (b_rateLimits st) env"
  shows "case searchAssets_basic_try st q env of
           Inl (e, st') \<Rightarrow> True
         | Inr (results, st') \<Rightarrow> results = take 10 (getFallbackSearchResults (rnd env) q)"
  using assms
  by (auto simp: providers_exhausted_basic_def searchAssets_basic_try_def provider_failed_def
      Let_def split: if_splits sum.splits)

text \<open>
  C7 (as amended).  Whenever every remote provider is rate-limited or fails (throws, or
  returns nothing), a search for \<open>IBM\<close> that misses the cache yields exactly one result,
  taken from the static table, with symbol \<open>IBM\<close> and a price strictly greater than
  zero, and the outcome is a resolved promise, never a rejected one.  This holds

  \<^item> for the operation of the enhanced service, from every rate-limit table and cache;

  \<^item> for a call of the enhanced \<open>searchAssets\<close> made after any history of the service:
    if the call misses the cache and its debounce timer is still scheduled when it fires
    (whatever happens in between), then the caller waits for an operation, and when
    that operation settles with the providers exhausted (whatever happens before), the
    caller's promise is resolved with that result;

  \<^item> for the basic \<open>searchAssets\<close>, from every state whose cache misses.

  The random draws are any numbers in \<open>[0, 1)\<close>, and the queries of the history are
  ASCII.
\<close>

theorem searchAssets_IBM_falls_back:
  assumes rnd: "\<forall>i. 0 \<le> rnd env i \<and> rnd env i < 1"
  shows "(providers_exhausted rl env \<longrightarrow>
            (\<exists>a. fst (searchOperation rl c ''IBM'' env) = Inr [a]
                 \<and> symbol a = ''IBM'' \<and> 0 < price a))
         \<and> (ascii_events events
              \<and> fst (getCachedData CACHE_DURATIONS (e_cache (run init events)) ''search_IBM''
                       Search now) = None
              \<and> ascii_events during
              \<and> nextId (run init events)
                   \<in> handle ` set (timeouts (run init (events @ [Call caller ''IBM'' now]
                                                        @ during))) \<longrightarrow>
            (\<exists>p. \<forall>later.
                ascii_events later \<and> list_all (\<lambda>e. \<not> settles p e) later
                \<and> providers_exhausted
                     (e_rateLimits (run init (events @ [Call caller ''IBM'' now] @ during
                         @ [TimerFires (nextId (run init events))] @ later))) env \<longrightarrow>
                (\<exists>a. settled (run init (events @ [Call caller ''IBM'' now] @ during
                           @ [TimerFires (nextId (run init events))] @ later
                           @ [OperationSettles p env])) caller = Some (Inr [a])
                     \<and> symbol a = ''IBM'' \<and> 0 < price a)))
         \<and> (providers_exhausted_basic (b_rateLimits st) env
              \<and> fst (getCachedData CACHE_DURATIONS_basic (b_cache st) ''search_IBM'' Basic_daily now')
                   = None \<longrightarrow>
            (\<exists>a. fst (searchAssets_basic st ''IBM'' now' env) = Inr [a]
                 \<and> symbol a = ''IBM'' \<and> 0 < price a))"
proof -
  have r0: "0 \<le> rnd env 0" using rnd by blast
  obtain a where a: "getEnhancedFallbackSearchResults (rnd env) ''IBM'' = [a]"
      "symbol a = ''IBM''" "0 < price a"
    using enhanced_fallback_IBM [of "rnd env"] r0 by blast
  obtain b where b: "getFallbackSearchResults (rnd env) ''IBM'' = [b]"
      "symbol b = ''IBM''" "0 < price b"
    using basic_fallback_IBM [of "rnd env"] r0 by blast
  have op: "fst (searchOperation rl' c' ''IBM'' env) = Inr [a]"
    if "providers_exhausted rl' env" for rl' c'
    using searchOperation_exhausted [OF that, of c' "''IBM''"] a by simp
  have operation: "providers_exhausted rl env \<longrightarrow>
            (\<exists>a. fst (searchOperation rl c ''IBM'' env) = Inr [a]
                 \<and> symbol a = ''IBM'' \<and> 0 < price a)"
    using op a by simp
  have enhanced: "\<exists>p. \<forall>later.
                ascii_events later \<and> list_all (\<lambda>e. \<not> settles p e) later
                \<and> providers_exhausted
                     (e_rateLimits (run init (events @ [Call caller ''IBM'' now] @ during
                         @ [TimerFires (nextId (run init events))] @ later))) env \<longrightarrow>
                (\<exists>a. settled (run init (events @ [Call caller ''IBM'' now] @ during
                           @ [TimerFires (nextId (run init events))] @ later
                           @ [OperationSettles p env])) caller = Some (Inr [a])
                     \<and> symbol a = ''IBM'' \<and> 0 < price a)"
    if miss: "fst (getCachedData CACHE_DURATIONS (e_cache (run init events)) ''search_IBM''
                       Search now) = None"
      and scheduled: "nextId (run init events)
                   \<in> handle ` set (timeouts (run init (events @ [Call caller ''IBM'' now]
                                                        @ during)))"
  proof -
    let ?st = "run init events"
    let ?h = "nextId ?st"
    let ?st1 = "searchAssets ?st caller ''IBM'' now"
    let ?st2 = "run ?st1 during"
    let ?st3 = "timerFires ?st2 ?h"
    let ?t0 = "\<lparr> handle = ?h, t_key = ''search_IBM'', t_caller = caller, t_query = ''IBM'' \<rparr>"
    have inv: "service_inv ?st"
      by (rule service_inv_run [OF service_inv_init])
    have inv2: "service_inv ?st2"
      by (intro service_inv_run service_inv_searchAssets inv)
    have st2: "run init (events @ [Call caller ''IBM'' now] @ during) = ?st2"
      by (simp add: run_def)
    obtain t where t: "find (\<lambda>t. handle t = ?h) (timeouts ?st2) = Some t"
      using scheduled unfolding st2 by (cases "find (\<lambda>t. handle t = ?h) (timeouts ?st2)")
        (auto simp: find_None_iff)
    then have "t \<in> set (timeouts ?st2)" "handle t = ?h"
      by (auto simp: find_Some_iff in_set_conv_nth)
    moreover have "?h < nextId ?st1"
      using call_schedules_timer(1) [OF inv miss, of caller] by simp
    ultimately have "t \<in> set (timeouts ?st1)"
      using timer_origin_run [of t ?st1 during] by simp
    then have t0: "t = ?t0"
      using call_schedules_timer(2) [OF inv miss, of caller] \<open>handle t = ?h\<close> by blast
    obtain p oper where w: "(p, caller) \<in> set (awaiting ?st3)"
        "find (\<lambda>oper. op_id oper = p) (inflight ?st3) = Some oper" "op_query oper = ''IBM''"
      using timer_fire_joins_operation [OF inv2 t] unfolding t0 by auto
    have "\<exists>a. settled (run init (events @ [Call caller ''IBM'' now] @ during
                           @ [TimerFires ?h] @ later
                           @ [OperationSettles p env])) caller = Some (Inr [a])
                     \<and> symbol a = ''IBM'' \<and> 0 < price a"
      if quiet: "list_all (\<lambda>e. \<not> settles p e) later"
        and ex: "providers_exhausted
                     (e_rateLimits (run init (events @ [Call caller ''IBM'' now] @ during
                         @ [TimerFires ?h] @ later))) env"
      for later
    proof -
      let ?st4 = "run ?st3 later"
      have st4: "run init (events @ [Call caller ''IBM'' now] @ during
                   @ [TimerFires ?h] @ later) = ?st4"
        by (simp add: run_def)
      have w4: "(p, caller) \<in> set (awaiting ?st4)"
          "find (\<lambda>oper. op_id oper = p) (inflight ?st4) = Some oper"
        using waiting_preserved_run [OF w(1) w(2) quiet] by simp_all
      have "run init (events @ [Call caller ''IBM'' now] @ during @ [TimerFires ?h] @ later
                @ [OperationSettles p env]) = operationSettles ?st4 p env"
        by (simp add: run_def)
      moreover have "settled (operationSettles ?st4 p env) caller = Some (Inr [a])"
        using settle_delivers [OF w4, of env] op ex w(3) unfolding st4 by simp
      ultimately show ?thesis using a by auto
    qed
    then show ?thesis by blast
  qed
  have basic: "\<exists>a. fst (searchAssets_basic st ''IBM'' now' env) = Inr [a]
                 \<and> symbol a = ''IBM'' \<and> 0 < price a"
    if ex: "providers_exhausted_basic (b_rateLimits st) env"
      and miss: "fst (getCachedData CACHE_DURATIONS_basic (b_cache st) ''search_IBM'' Basic_daily now')
                   = None"
  proof -
    let ?st = "st\<lparr> b_cache := snd (getCachedData CACHE_DURATIONS_basic (b_cache st)
                                     ''search_IBM'' Basic_daily now') \<rparr>"
    have ex': "providers_exhausted_basic (b_rateLimits ?st) env" using ex by simp
    have "fst (searchAssets_basic st ''IBM'' now' env) = Inr [b]"
      using searchAssets_basic_try_exhausted [OF ex', of "''IBM''"] miss b
      by (simp add: searchAssets_basic_def normalize_IBM Let_def split: sum.splits prod.splits)
    then show ?thesis using b by blast
  qed
  from operation enhanced basic show ?thesis by blast
qed

theorem searchAssets_IBM_falls_back_witness:
  "(\<forall>i. 0 \<le> rnd failing_env i \<and> rnd failing_env i < 1)
   \<and> providers_exhausted Map.empty failing_env
   \<and> (\<exists>a. fst (searchOperation Map.empty Map.empty ''IBM'' failing_env) = Inr [a]
          \<and> symbol a = ''IBM'' \<and> 0 < price a)
   \<and> ascii_events [Call 3 ''AAPL'' 0, TimerFires 0]
   \<and> fst (getCachedData CACHE_DURATIONS
             (e_cache (run init [Call 3 ''AAPL'' 0, TimerFires 0])) ''search_IBM'' Search 100)
       = None
   \<and> ascii_events [Call 4 ''MSFT'' 200]
   \<and> nextId (run init [Call 3 ''AAPL'' 0, TimerFires 0])
        \<in> handle ` set (timeouts (run init [Call 3 ''AAPL'' 0, TimerFires 0,
                                              Call 7 ''IBM'' 100, Call 4 ''MSFT'' 200]))
   \<and> providers_exhausted
        (e_rateLimits (run init [Call 3 ''AAPL'' 0, TimerFires 0, Call 7 ''IBM'' 100,
                                  Call 4 ''MSFT'' 200, TimerFires 2])) failing_env
   \<and> (\<exists>p a. settled (run init [Call 3 ''AAPL'' 0, TimerFires 0, Call 7 ''IBM'' 100,
                                Call 4 ''MSFT'' 200, TimerFires 2,
                                OperationSettles p failing_env]) 7
             = Some (Inr [a])
          \<and> symbol a = ''IBM'' \<and> 0 < price a)
   \<and> providers_exhausted_basic (b_rateLimits basic_init) failing_env
   \<and> fst (getCachedData CACHE_DURATIONS_basic (b_cache basic_init) ''search_IBM'' Basic_daily 0)
       = None
   \<and> (\<exists>a. fst (searchAssets_basic basic_init ''IBM'' 0 failing_env) = Inr [a]
          \<and> symbol a = ''IBM'' \<and> 0 < price a)"
proof -
  let ?events = "[Call 3 ''AAPL'' 0, TimerFires 0]"
  let ?during = "[Call 4 ''MSFT'' 200]"
  have r: "\<forall>i. 0 \<le> rnd failing_env i \<and> rnd failing_env i < 1"
    by (simp add: failing_env_def)
  have e: "providers_exhausted Map.empty failing_env"
    by (simp add: providers_exhausted_def failing_env_def provider_failed_def
        checkRateLimit_def RATE_LIMIT_WINDOW_def Let_def)
  have eb: "providers_exhausted_basic (b_rateLimits basic_init) failing_env"
    by (simp add: providers_exhausted_basic_def failing_env_def provider_failed_def
        checkRateLimit_basic_def RATE_LIMIT_WINDOW_def basic_init_def Let_def)
  have mb: "fst (getCachedData CACHE_DURATIONS_basic (b_cache basic_init) ''search_IBM''
                   Basic_daily 0) = None"
    by (simp add: getCachedData_def basic_init_def)
  have n1: "toUpperCase (trim ''AAPL'') = ''AAPL''" "toUpperCase (trim ''MSFT'') = ''MSFT''"
    by (simp_all add: toUpperCase_def trim_def isWhiteSpace_def)
  have s0: "run init ?events
      = init\<lparr> upstream := [''AAPL''],
              inflight := [\<lparr> op_id = 1, op_key = ''search_AAPL'', op_query = ''AAPL'' \<rparr>],
              e_pendingRequests := [''search_AAPL'' \<mapsto> 1],
              awaiting := [(1, 3)], nextId := 2 \<rparr>"
    by (simp add: run_def searchAssets_def n1 debounceRequest_def timerFires_def
        deduplicateRequest_def getCachedData_def init_def Let_def fun_eq_iff)
  have m: "fst (getCachedData CACHE_DURATIONS (e_cache (run init ?events)) ''search_IBM''
             Search 100) = None"
    unfolding s0 by (simp add: getCachedData_def init_def)
  have n0: "nextId (run init ?events) = 2"
    unfolding s0 by simp
  have s1: "run init (?events @ [Call 7 ''IBM'' 100] @ ?during)
      = init\<lparr> upstream := [''AAPL''],
              inflight := [\<lparr> op_id = 1, op_key = ''search_AAPL'', op_query = ''AAPL'' \<rparr>],
              e_pendingRequests := [''search_AAPL'' \<mapsto> 1],
              awaiting := [(1, 3)],
              timeouts := [\<lparr> handle = 2, t_key = ''search_IBM'', t_caller = 7,
                              t_query = ''IBM'' \<rparr>,
                           \<lparr> handle = 3, t_key = ''search_MSFT'', t_caller = 4,
                              t_query = ''MSFT'' \<rparr>],
              e_debounceTimers := [''search_IBM'' \<mapsto> 2, ''search_MSFT'' \<mapsto> 3],
              nextId := 4 \<rparr>"
    unfolding run_append s0
    by (simp add: run_def searchAssets_def n1 normalize_IBM debounceRequest_def
        getCachedData_def init_def Let_def fun_eq_iff)
  have sched: "nextId (run init ?events)
        \<in> handle ` set (timeouts (run init (?events @ [Call 7 ''IBM'' 100] @ ?during)))"
    unfolding s1 n0 by simp
  have rl: "e_rateLimits (run init (?events @ [Call 7 ''IBM'' 100] @ ?during
               @ [TimerFires 2] @ [])) = Map.empty"
    using s1 by (simp add: run_def timerFires_def deduplicateRequest_def init_def Let_def)
  have a: "ascii_events ?events" "ascii_events ?during" "ascii_events []"
    by (simp_all add: ascii_events_def ascii_def)
  note inst = searchAssets_IBM_falls_back [OF r, of Map.empty Map.empty ?events 100
      ?during 7 basic_init 0]
  from inst a m sched obtain p where p: "\<forall>later.
                ascii_events later \<and> list_all (\<lambda>e. \<not> settles p e) later
                \<and> providers_exhausted
                     (e_rateLimits (run init (?events @ [Call 7 ''IBM'' 100] @ ?during
                         @ [TimerFires (nextId (run init ?events))] @ later))) failing_env \<longrightarrow>
                (\<exists>a. settled (run init (?events @ [Call 7 ''IBM'' 100] @ ?during
                           @ [TimerFires (nextId (run init ?events))] @ later
                           @ [OperationSettles p failing_env])) 7 = Some (Inr [a])
                     \<and> symbol a = ''IBM'' \<and> 0 < price a)"
    by blast
  have trace: "\<exists>p a. settled (run init [Call 3 ''AAPL'' 0, TimerFires 0, Call 7 ''IBM'' 100,
                                Call 4 ''MSFT'' 200, TimerFires 2,
                                OperationSettles p failing_env]) 7 = Some (Inr [a])
          \<and> symbol a = ''IBM'' \<and> 0 < price a"
    using p [rule_format, of "[]"] a(3) e rl unfolding n0 by auto
  show ?thesis
    using inst r e eb m mb a rl trace sched by simp
qed

text \<open>
  C7 as stated fails in the basic service when the cache holds the result of an earlier
  scrape.  The first search for \<open>IBM\<close> finds nothing at the APIs and caches the scraped
  row, whose price is the placeholder 0.  A minute later every provider fails, and the
  second search resolves with the cached row: symbol \<open>IBM\<close>, price 0, not taken from the
  static table.
\<close>

theorem cached_scrape_counterexample:
  "providers_exhausted_basic
      (b_rateLimits (snd (searchAssets_basic basic_init ''IBM'' 0 scrape_env))) failing_env
   \<and> fst (searchAssets_basic (snd (searchAssets_basic basic_init ''IBM'' 0 scrape_env))
            ''IBM'' 60000 failing_env) = Inr [scraped_row]
   \<and> symbol scraped_row = ''IBM''
   \<and> price scraped_row = 0"
  by (simp add: searchAssets_basic_def searchAssets_basic_try_def normalize_IBM
      checkRateLimit_basic_def RATE_LIMIT_WINDOW_def getCachedData_def setCachedData_def
      providers_exhausted_basic_def provider_failed_def basic_init_def scrape_env_def
      failing_env_def scraped_row_def Let_def)

subsection \<open>One analysis in flight per symbol and user\<close>

text \<open>
  C8. While an evaluation for a (symbol, userId) pair is in flight, that is while its key
  is in \<open>runningAnalyses\<close>, a second call for the same pair is rejected with the
  analysis-in-progress error (it is not queued: the entry returns the error and adds
  nothing).  A call for a pair that is not in flight enters and adds exactly its own key.
  When the first evaluation settles, whether its body returned or threw, exactly its own
  key is removed, the body's outcome is passed on, and a later call for the same pair
  enters again.  Entering and settling one pair leave every other pair as it was: a pair
  in flight stays in flight and its second call is still rejected, a pair not in flight
  stays so.
\<close>

theorem analysis_in_progress_rejected:
  "(analysisKey symb userId \<in> runningAnalyses \<longrightarrow>
      generateAutomatedAnalysis_enter runningAnalyses symb userId
        = Inl (Error ''Analysis already in progress for this asset''))
   \<and> (analysisKey symb userId \<notin> runningAnalyses \<longrightarrow>
      generateAutomatedAnalysis_enter runningAnalyses symb userId
        = Inr (insert (analysisKey symb userId) runningAnalyses))
   \<and> (\<forall>running'. generateAutomatedAnalysis_enter runningAnalyses symb userId = Inr running' \<longrightarrow>
        running' = insert (analysisKey symb userId) runningAnalyses
        \<and> analysisKey symb userId \<in> running'
        \<and> generateAutomatedAnalysis_enter running' symb userId
            = Inl (Error ''Analysis already in progress for this asset'')
        \<and> (\<forall>outcome::error + 'r.
              fst (generateAutomatedAnalysis_settle running' symb userId outcome) = outcome
              \<and> snd (generateAutomatedAnalysis_settle running' symb userId outcome)
                   = running' - {analysisKey symb userId}
              \<and> analysisKey symb userId
                   \<notin> snd (generateAutomatedAnalysis_settle running' symb userId outcome)
              \<and> generateAutomatedAnalysis_enter
                     (snd (generateAutomatedAnalysis_settle running' symb userId outcome))
                     symb userId
                   = Inr (insert (analysisKey symb userId)
                            (runningAnalyses - {analysisKey symb userId}))))
   \<and> (\<forall>symb2 userId2 running'.
        analysisKey symb2 userId2 \<in> runningAnalyses
        \<and> generateAutomatedAnalysis_enter runningAnalyses symb userId = Inr running' \<longrightarrow>
        generateAutomatedAnalysis_enter running' symb2 userId2
          = Inl (Error ''Analysis already in progress for this asset'')
        \<and> (\<forall>outcome::error + 'r.
              generateAutomatedAnalysis_enter
                (snd (generateAutomatedAnalysis_settle running' symb userId outcome))
                symb2 userId2
              = Inl (Error ''Analysis already in progress for this asset'')))
   \<and> (\<forall>symb2 userId2 running'.
        analysisKey symb2 userId2 \<notin> runningAnalyses
        \<and> analysisKey symb2 userId2 \<noteq> analysisKey symb userId
        \<and> generateAutomatedAnalysis_enter runningAnalyses symb userId = Inr running' \<longrightarrow>
        analysisKey symb2 userId2 \<notin> running'
        \<and> (\<forall>outcome::error + 'r.
              analysisKey symb2 userId2
                \<notin> snd (generateAutomatedAnalysis_settle running' symb userId outcome)))"
  by (auto simp: generateAutomatedAnalysis_enter_def generateAutomatedAnalysis_settle_def
      split: if_splits)

theorem analysis_in_progress_rejected_witness:
  "analysisKey ''IBM'' ''u1'' \<notin> {''AAPL-u2''}
   \<and> generateAutomatedAnalysis_enter {''AAPL-u2''} ''IBM'' ''u1'' = Inr {''IBM-u1'', ''AAPL-u2''}
   \<and> analysisKey ''IBM'' ''u1'' \<in> {''IBM-u1'', ''AAPL-u2''}
   \<and> generateAutomatedAnalysis_enter {''IBM-u1'', ''AAPL-u2''} ''IBM'' ''u1''
       = Inl (Error ''Analysis already in progress for this asset'')
   \<and> analysisKey ''AAPL'' ''u2'' \<in> {''AAPL-u2''}
   \<and> generateAutomatedAnalysis_enter {''IBM-u1'', ''AAPL-u2''} ''AAPL'' ''u2''
       = Inl (Error ''Analysis already in progress for this asset'')
   \<and> snd (generateAutomatedAnalysis_settle {''IBM-u1'', ''AAPL-u2''} ''IBM'' ''u1''
            (Inl (Error ''User not found'') :: error + unit)) = {''AAPL-u2''}
   \<and> snd (generateAutomatedAnalysis_settle {''IBM-u1'', ''AAPL-u2''} ''IBM'' ''u1''
            (Inr () :: error + unit)) = {''AAPL-u2''}
   \<and> generateAutomatedAnalysis_enter {''AAPL-u2''} ''AAPL'' ''u2''
       = Inl (Error ''Analysis already in progress for this asset'')
   \<and> generateAutomatedAnalysis_enter
        (snd (generateAutomatedAnalysis_settle {''IBM-u1'', ''AAPL-u2''} ''IBM'' ''u1''
            (Inl (Error ''User not found'') :: error + unit))) ''IBM'' ''u1''
       = Inr {''IBM-u1'', ''AAPL-u2''}"
proof -
  have k: "analysisKey ''IBM'' ''u1'' = ''IBM-u1''" "analysisKey ''AAPL'' ''u2'' = ''AAPL-u2''"
    by (simp_all add: analysisKey_def)
  show ?thesis
    using analysis_in_progress_rejected
        [of "''IBM''" "''u1''" "{''AAPL-u2''}", where 'r = unit]
      analysis_in_progress_rejected
        [of "''IBM''" "''u1''" "{''IBM-u1'', ''AAPL-u2''}", where 'r = unit]
    by (simp add: k generateAutomatedAnalysis_enter_def generateAutomatedAnalysis_settle_def
        insert_commute)
qed

subsection \<open>Stop-loss and take-profit prices\<close>

text \<open>
  C9. For every signal and every pair of user risk percentages, the stop-loss alert
  carries \<open>currentPrice * (1 - stopLossPercent / 100)\<close> and the take-profit alert
  \<open>currentPrice * (1 + takeProfitPercent / 100)\<close> for a BUY, and the inverted formulas
  for a SELL; a BUY at entry price 100 with stop-loss 5 and take-profit 10 gives the
  trigger prices 95 and 110.
\<close>

theorem setupRiskManagement_prices:
  "condition_price (fst (setupRiskManagement signal us)) =
     (case sig_action signal of
        BUY \<Rightarrow> sig_currentPrice signal * (1 - stopLossPercent us / 100)
      | SELL \<Rightarrow> sig_currentPrice signal * (1 + stopLossPercent us / 100))
   \<and> condition_price (snd (setupRiskManagement signal us)) =
     (case sig_action signal of
        BUY \<Rightarrow> sig_currentPrice signal * (1 + takeProfitPercent us / 100)
      | SELL \<Rightarrow> sig_currentPrice signal * (1 - takeProfitPercent us / 100))
   \<and> condition_type (fst (setupRiskManagement signal us)) = ''STOP_LOSS''
   \<and> condition_type (snd (setupRiskManagement signal us)) = ''TAKE_PROFIT''
   \<and> condition_price (fst (setupRiskManagement (demo_signal BUY 100) demo_user)) = 95
   \<and> condition_price (snd (setupRiskManagement (demo_signal BUY 100) demo_user)) = 110"
  by (cases "sig_action signal")
     (simp_all add: setupRiskManagement_def Let_def demo_signal_def demo_user_def)

subsection \<open>Cache expiry\<close>

text \<open>
  C10. A cache read decides expiry against the duration of the class given to the read:
  the entry is returned exactly when its age is below that duration, and it is evicted
  otherwise; the \<open>ttl\<close> stored with the entry plays no part, so changing it changes
  nothing, and an entry written under one class and read under another is kept or
  evicted by the reading class (in both services: an entry written as \<open>search\<close> and
  read as \<open>extended\<close> ten minutes later is a hit, the other way round it is a miss).
\<close>

theorem cache_read_uses_read_class:
  "fst (getCachedData durations (cache(key \<mapsto> e)) key readType now)
      = (if now - timestamp e < durations readType then Some (data e) else None)
   \<and> snd (getCachedData durations (cache(key \<mapsto> e)) key readType now)
      = (if now - timestamp e < durations readType then cache(key \<mapsto> e) else cache(key := None))
   \<and> fst (getCachedData durations (cache(key \<mapsto> e\<lparr>ttl := t\<rparr>)) key readType now)
      = fst (getCachedData durations (cache(key \<mapsto> e)) key readType now)
   \<and> fst (getCachedData durations
            (setCachedData durations cache key d writeType t0) key readType now)
      = (if now - t0 < durations readType then Some d else None)
   \<and> fst (getCachedData CACHE_DURATIONS
            (setCachedData CACHE_DURATIONS Map.empty ''k'' d Search 0) ''k'' Extended 600000)
      = Some d
   \<and> fst (getCachedData CACHE_DURATIONS
            (setCachedData CACHE_DURATIONS Map.empty ''k'' d Extended 0) ''k'' Search 600000)
      = None
   \<and> fst (getCachedData CACHE_DURATIONS_basic
            (setCachedData CACHE_DURATIONS_basic Map.empty ''k'' d Basic_intraday 0) ''k''
            Basic_historical 600000)
      = Some d
   \<and> fst (getCachedData CACHE_DURATIONS_basic
            (setCachedData CACHE_DURATIONS_basic Map.empty ''k'' d Basic_historical 0) ''k''
            Basic_intraday 600000)
      = None"
  by (simp add: getCachedData_def setCachedData_def Let_def)

end
